theory Spec2Isabelle
  imports Complex_Main
begin

section \<open>Numbers\<close>

text \<open>
  Every matrix element is an ECMAScript Number held in a \<^verbatim>\<open>Float64Array\<close>. The arithmetic of
  the runtime is not part of the repository, so the embedding takes it as a parameter: a
  record of exactly the operations the source applies to elements. Every general theorem
  below holds for all such records, hence for IEEE-754 binary64 arithmetic in particular.
  Section \<open>binary64\<close> gives the concrete instance used to run the code on inputs.

  Sizes, indices and status codes are Numbers holding integers; they are modelled as
  \<open>int\<close>.
\<close>

record 'a num_ops =
  fabs :: "'a \<Rightarrow> 'a"               \<comment> \<open>\<^verbatim>\<open>Math.abs(x)\<close>\<close>
  fsub :: "'a \<Rightarrow> 'a \<Rightarrow> 'a"          \<comment> \<open>\<^verbatim>\<open>x - y\<close>\<close>
  fmul :: "'a \<Rightarrow> 'a \<Rightarrow> 'a"          \<comment> \<open>\<^verbatim>\<open>x * y\<close>\<close>
  fdiv :: "'a \<Rightarrow> 'a \<Rightarrow> 'a"          \<comment> \<open>\<^verbatim>\<open>x / y\<close>\<close>
  fgt :: "'a \<Rightarrow> 'a \<Rightarrow> bool"         \<comment> \<open>\<^verbatim>\<open>x > y\<close>\<close>
  feq0 :: "'a \<Rightarrow> bool"              \<comment> \<open>\<^verbatim>\<open>x === 0\<close>\<close>
  fzero :: "'a"                      \<comment> \<open>the literal \<^verbatim>\<open>0\<close>, also the content of a new typed array\<close>
  fnan :: "'a"                       \<comment> \<open>\<^verbatim>\<open>NaN\<close>, what \<^verbatim>\<open>undefined\<close> becomes in arithmetic\<close>

text \<open>
  Reading a typed array outside its bounds yields \<^verbatim>\<open>undefined\<close> (\<open>None\<close>). Arithmetic,
  \<^verbatim>\<open>Math.abs\<close> and a store into a \<^verbatim>\<open>Float64Array\<close> all convert their operand with
  ToNumber, which maps \<^verbatim>\<open>undefined\<close> to NaN.
\<close>

definition to_number :: "'a num_ops \<Rightarrow> 'a option \<Rightarrow> 'a" where
  "to_number ops v = (case v of None \<Rightarrow> fnan ops | Some x \<Rightarrow> x)"

section \<open>Core types (types/index.ts)\<close>

datatype MatrixLayout = RowMajor | ColumnMajor

text \<open>
  A \<^verbatim>\<open>Matrix\<close> borrows its buffer: \<open>data\<close> is a reference to a typed array living in the
  store, so that two matrices may share one buffer and a mutation through one is seen
  through the other.
\<close>

record Matrix =
  data :: nat
  rows :: int
  cols :: int
  layout :: MatrixLayout
  leadingDimension :: int

datatype error =
    LapackError int string   \<comment> \<open>\<^verbatim>\<open>info\<close> and \<^verbatim>\<open>functionName\<close> of the thrown LapackError\<close>
  | RangeError               \<comment> \<open>thrown by the runtime's typed-array operations\<close>

record 'a MatrixCreateOptions =
  opt_layout :: "MatrixLayout option"
  initialValue :: "'a option"

section \<open>The store of typed arrays\<close>

text \<open>
  \<open>bufs\<close> holds the \<^verbatim>\<open>Float64Array\<close> objects allocated so far; a reference is an index
  into it. \<open>faulted\<close> is a ghost flag, absent from the program: the unchecked accessors of
  the solver module raise it when they touch an index outside the buffer. No function
  reads it, so it has no influence on any computed value.
  Memory is unbounded: the engine's limit on the length of a typed array is not modelled.
\<close>

record 'a store =
  bufs :: "'a list list"
  faulted :: bool

definition in_bounds :: "'a store \<Rightarrow> nat \<Rightarrow> int \<Rightarrow> bool" where
  "in_bounds s a idx \<longleftrightarrow> a < length (bufs s) \<and> 0 \<le> idx \<and> idx < int (length (bufs s ! a))"

definition ta_get :: "'a store \<Rightarrow> nat \<Rightarrow> int \<Rightarrow> 'a option" where
  \<comment> \<open>\<^verbatim>\<open>data[index]\<close>: \<^verbatim>\<open>undefined\<close> outside the array\<close>
  "ta_get s a idx = (if in_bounds s a idx then Some (bufs s ! a ! nat idx) else None)"

definition ta_set :: "'a store \<Rightarrow> nat \<Rightarrow> int \<Rightarrow> 'a \<Rightarrow> 'a store" where
  \<comment> \<open>\<^verbatim>\<open>data[index] = value\<close>: a store outside the array is ignored\<close>
  "ta_set s a idx v =
     (if in_bounds s a idx then s\<lparr>bufs := (bufs s)[a := (bufs s ! a)[nat idx := v]]\<rparr> else s)"

definition new_Float64Array :: "'a num_ops \<Rightarrow> int \<Rightarrow> 'a store \<Rightarrow> error + (nat \<times> 'a store)" where
  \<comment> \<open>\<^verbatim>\<open>new Float64Array(len)\<close>: a fresh zero-filled array; a negative length throws\<close>
  "new_Float64Array ops len s =
     (if len < 0 then Inl RangeError
      else Inr (length (bufs s), s\<lparr>bufs := bufs s @ [replicate (nat len) (fzero ops)]\<rparr>))"

definition ta_fill :: "'a store \<Rightarrow> nat \<Rightarrow> 'a \<Rightarrow> 'a store" where
  \<comment> \<open>\<^verbatim>\<open>data.fill(v)\<close>\<close>
  "ta_fill s a v = s\<lparr>bufs := (bufs s)[a := replicate (length (bufs s ! a)) v]\<rparr>"

section \<open>Matrix utilities (utils/matrix.ts)\<close>

definition createMatrix ::
  "'a store \<Rightarrow> nat \<Rightarrow> int \<Rightarrow> int \<Rightarrow> 'a MatrixCreateOptions \<Rightarrow> error + Matrix" where
  "createMatrix s d r c options =
     (let lay = (case opt_layout options of None \<Rightarrow> ColumnMajor | Some l \<Rightarrow> l) in
      if int (length (bufs s ! d)) < r * c then Inl (LapackError (- 1) ''createMatrix'')
      else Inr \<lparr>data = d, rows = r, cols = c, layout = lay,
                leadingDimension = (if lay = ColumnMajor then r else c)\<rparr>)"

definition createFloat64Matrix ::
  "'a num_ops \<Rightarrow> int \<Rightarrow> int \<Rightarrow> 'a MatrixCreateOptions \<Rightarrow> 'a store \<Rightarrow> error + (Matrix \<times> 'a store)" where
  "createFloat64Matrix ops r c options s =
     (let iv = (case initialValue options of None \<Rightarrow> fzero ops | Some v \<Rightarrow> v) in
      case new_Float64Array ops (r * c) s of
        Inl e \<Rightarrow> Inl e
      | Inr (d, s1) \<Rightarrow>
          let s2 = (if \<not> feq0 ops iv then ta_fill s1 d iv else s1) in
          (case createMatrix s2 d r c options of
             Inl e \<Rightarrow> Inl e
           | Inr m \<Rightarrow> Inr (m, s2)))"

definition offset :: "Matrix \<Rightarrow> int \<Rightarrow> int \<Rightarrow> int" where
  "offset m i j =
     (if layout m = ColumnMajor then j * leadingDimension m + i
      else i * leadingDimension m + j)"

definition validateIndices :: "Matrix \<Rightarrow> int \<Rightarrow> int \<Rightarrow> error + unit" where
  "validateIndices m i j =
     (if i < 0 \<or> i \<ge> rows m then Inl (LapackError (- 1) ''validateIndices'')
      else if j < 0 \<or> j \<ge> cols m then Inl (LapackError (- 1) ''validateIndices'')
      else Inr ())"

definition getElement :: "Matrix \<Rightarrow> int \<Rightarrow> int \<Rightarrow> 'a store \<Rightarrow> error + 'a option" where
  "getElement m i j s =
     (case validateIndices m i j of
        Inl e \<Rightarrow> Inl e
      | Inr _ \<Rightarrow> Inr (ta_get s (data m) (offset m i j)))"

definition setElement :: "Matrix \<Rightarrow> int \<Rightarrow> int \<Rightarrow> 'a \<Rightarrow> 'a store \<Rightarrow> error + 'a store" where
  "setElement m i j v s =
     (case validateIndices m i j of
        Inl e \<Rightarrow> Inl e
      | Inr _ \<Rightarrow> Inr (ta_set s (data m) (offset m i j) v))"

definition validateParameters ::
  "int option \<Rightarrow> int option \<Rightarrow> int option \<Rightarrow> int option \<Rightarrow> string option \<Rightarrow> error + unit" where
  "validateParameters n nrhs lda ldb functionName =
     (let fname = (case functionName of None \<Rightarrow> ''unknown'' | Some f \<Rightarrow> f) in
      if (case n of None \<Rightarrow> False | Some n' \<Rightarrow> n' < 0)
      then Inl (LapackError (- 1) fname)
      else if (case nrhs of None \<Rightarrow> False | Some r \<Rightarrow> r < 0)
      then Inl (LapackError (- 2) fname)
      else if (case (lda, n) of (Some l, Some n') \<Rightarrow> l < max 1 n' | _ \<Rightarrow> False)
      then Inl (LapackError (- 4) fname)
      else if (case (ldb, n) of (Some l, Some n') \<Rightarrow> l < max 1 n' | _ \<Rightarrow> False)
      then Inl (LapackError (- 7) fname)
      else Inr ())"

text \<open>
  \<^verbatim>\<open>source.data.subarray(0, e)\<close> clamps \<open>e\<close> to the array (a negative \<open>e\<close> counts from
  the end); \<^verbatim>\<open>target.data.set(xs)\<close> throws a RangeError when \<open>xs\<close> is longer than the
  target and overwrites its first \<open>length xs\<close> elements otherwise.
\<close>

definition ta_subarray0 :: "'a list \<Rightarrow> int \<Rightarrow> 'a list" where
  "ta_subarray0 xs e =
     (let len = int (length xs);
          fin = (if e < 0 then max (len + e) 0 else min e len)
      in take (nat fin) xs)"

definition ta_set_all :: "'a store \<Rightarrow> nat \<Rightarrow> 'a list \<Rightarrow> error + 'a store" where
  "ta_set_all s a xs =
     (if length xs > length (bufs s ! a) then Inl RangeError
      else Inr (s\<lparr>bufs := (bufs s)[a := xs @ drop (length xs) (bufs s ! a)]\<rparr>))"

definition copy_cell :: "'a num_ops \<Rightarrow> Matrix \<Rightarrow> Matrix \<Rightarrow> int \<Rightarrow> int \<Rightarrow> 'a store \<Rightarrow> error + 'a store" where
  \<comment> \<open>\<^verbatim>\<open>setElement(target, i, j, getElement(source, i, j))\<close>\<close>
  "copy_cell ops source target i j s =
     (case getElement source i j s of
        Inl e \<Rightarrow> Inl e
      | Inr v \<Rightarrow> setElement target i j (to_number ops v) s)"

definition copyMatrix :: "'a num_ops \<Rightarrow> Matrix \<Rightarrow> Matrix \<Rightarrow> 'a store \<Rightarrow> error + 'a store" where
  "copyMatrix ops source target s =
     (if rows source \<noteq> rows target \<or> cols source \<noteq> cols target
      then Inl (LapackError (- 1) ''copyMatrix'')
      else if layout source = layout target
              \<and> leadingDimension source = leadingDimension target
              \<and> leadingDimension source = rows source
      then ta_set_all s (data target)
             (ta_subarray0 (bufs s ! data source) (rows source * cols source))
      else fold (\<lambda>i r. fold (\<lambda>j r. case r of Inl e \<Rightarrow> Inl e
                                       | Inr t \<Rightarrow> copy_cell ops source target i j t)
                              [0..cols source - 1] r)
             [0..rows source - 1] (Inr s))"

section \<open>The solver (linear-equations/dgesv.ts)\<close>

record DgesvInput =
  input_A :: Matrix
  input_B :: Matrix
  overwriteInput :: "bool option"

record DgesvOutput =
  solution :: Matrix
  LU :: Matrix
  pivots :: "int list"

text \<open>\<open>result = None\<close> stands for the empty object \<^verbatim>\<open>{} as DgesvOutput\<close>.\<close>

record LapackResultWithData =
  info :: int
  result :: "DgesvOutput option"

subsection \<open>The module's private, unchecked accessors\<close>

definition touch :: "'a store \<Rightarrow> nat \<Rightarrow> int \<Rightarrow> 'a store" where
  \<comment> \<open>ghost: record whether the access fell outside the buffer\<close>
  "touch s a idx = s\<lparr>faulted := faulted s \<or> \<not> in_bounds s a idx\<rparr>"

definition getElementU :: "Matrix \<Rightarrow> int \<Rightarrow> int \<Rightarrow> 'a store \<Rightarrow> 'a option \<times> 'a store" where
  "getElementU m i j s =
     (let index = offset m i j in (ta_get s (data m) index, touch s (data m) index))"

definition setElementU :: "Matrix \<Rightarrow> int \<Rightarrow> int \<Rightarrow> 'a \<Rightarrow> 'a store \<Rightarrow> 'a store" where
  "setElementU m i j v s =
     (let index = offset m i j in ta_set (touch s (data m) index) (data m) index v)"

subsection \<open>The pivot array\<close>

text \<open>
  An \<^verbatim>\<open>Int32Array\<close> is local to one call of \<^verbatim>\<open>dgesv\<close>, so it is passed as a value. A
  store converts to a signed 32-bit integer and is ignored outside the array; a read
  outside the array is \<^verbatim>\<open>undefined\<close>.
\<close>

definition wrap32 :: "int \<Rightarrow> int" where
  "wrap32 x = (x + 2 ^ 31) mod 2 ^ 32 - 2 ^ 31"

definition i32_set :: "int list \<Rightarrow> int \<Rightarrow> int \<Rightarrow> int list" where
  "i32_set xs k v = (if 0 \<le> k \<and> k < int (length xs) then xs[nat k := wrap32 v] else xs)"

definition i32_get :: "int list \<Rightarrow> int \<Rightarrow> int option" where
  "i32_get xs k = (if 0 \<le> k \<and> k < int (length xs) then Some (xs ! nat k) else None)"

subsection \<open>DGETRF\<close>

definition pivot_scan :: "'a num_ops \<Rightarrow> Matrix \<Rightarrow> int \<Rightarrow> 'a store \<Rightarrow> 'a \<times> int \<times> 'a store" where
  \<comment> \<open>the search for the pivot of column \<open>k\<close>: returns \<open>(maxVal, maxRow, store)\<close>\<close>
  "pivot_scan ops A k s =
     fold (\<lambda>i (maxVal, maxRow, t).
             let (x, t1) = getElementU A i k t;
                 val = fabs ops (to_number ops x)
             in if fgt ops val maxVal then (val, i, t1) else (maxVal, maxRow, t1))
          [k + 1..rows A - 1]
          (let (x, t) = getElementU A k k s in (fabs ops (to_number ops x), k, t))"

definition swap_cell :: "'a num_ops \<Rightarrow> Matrix \<Rightarrow> int \<Rightarrow> int \<Rightarrow> int \<Rightarrow> 'a store \<Rightarrow> 'a store" where
  \<comment> \<open>the body of a row exchange: swap \<open>M[k,j]\<close> and \<open>M[r,j]\<close>\<close>
  "swap_cell ops M k r j s =
     (let (temp, s1) = getElementU M k j s;
          (x, s2) = getElementU M r j s1;
          s3 = setElementU M k j (to_number ops x) s2
      in setElementU M r j (to_number ops temp) s3)"

definition swap_rows :: "'a num_ops \<Rightarrow> Matrix \<Rightarrow> int \<Rightarrow> int \<Rightarrow> int \<Rightarrow> 'a store \<Rightarrow> 'a store" where
  \<comment> \<open>exchange rows \<open>k\<close> and \<open>r\<close> of \<open>M\<close> over the columns \<open>0 .. w - 1\<close>\<close>
  "swap_rows ops M k r w s = fold (swap_cell ops M k r) [0..w - 1] s"

definition eliminate_row :: "'a num_ops \<Rightarrow> Matrix \<Rightarrow> int \<Rightarrow> 'a option \<Rightarrow> int \<Rightarrow> 'a store \<Rightarrow> 'a store" where
  \<comment> \<open>the body of the loop over \<open>i\<close> in the elimination of column \<open>k\<close>\<close>
  "eliminate_row ops A k pivot i s =
     (let (x, s1) = getElementU A i k s;
          factor = fdiv ops (to_number ops x) (to_number ops pivot);
          s2 = setElementU A i k factor s1
      in fold (\<lambda>j t.
                 let (a, t1) = getElementU A i j t;
                     (b, t2) = getElementU A k j t1;
                     newVal = fsub ops (to_number ops a) (fmul ops factor (to_number ops b))
                 in setElementU A i j newVal t2)
              [k + 1..rows A - 1] s2)"

definition eliminate :: "'a num_ops \<Rightarrow> Matrix \<Rightarrow> int \<Rightarrow> 'a store \<Rightarrow> 'a store" where
  "eliminate ops A k s =
     (let (pivot, s1) = getElementU A k k s
      in fold (eliminate_row ops A k pivot) [k + 1..rows A - 1] s1)"

function dgetrf_loop ::
  "'a num_ops \<Rightarrow> Matrix \<Rightarrow> int \<Rightarrow> int list \<Rightarrow> 'a store \<Rightarrow> int \<times> int list \<times> 'a store" where
  "dgetrf_loop ops A k ipiv s =
     (if k < rows A then
        (case pivot_scan ops A k s of (maxVal, maxRow, s1) \<Rightarrow>
           let ipiv1 = i32_set ipiv k (maxRow + 1) in
           if feq0 ops maxVal then (k + 1, ipiv1, s1)
           else
             let s2 = (if maxRow \<noteq> k then swap_rows ops A k maxRow (rows A) s1 else s1);
                 s3 = eliminate ops A k s2
             in dgetrf_loop ops A (k + 1) ipiv1 s3)
      else (0, ipiv, s))"
  by pat_completeness auto
termination
  by (relation "measure (\<lambda>(ops, A, k, ipiv, s). nat (rows A - k))") auto

declare dgetrf_loop.simps [simp del]

definition dgetrf :: "'a num_ops \<Rightarrow> Matrix \<Rightarrow> int list \<Rightarrow> 'a store \<Rightarrow> int \<times> int list \<times> 'a store" where
  \<comment> \<open>returns the \<^verbatim>\<open>info\<close> of the LapackResult, the pivot array and the store\<close>
  "dgetrf ops A ipiv s = dgetrf_loop ops A 0 ipiv s"

subsection \<open>DGETRS\<close>

datatype trans = N | T | C

definition apply_pivot :: "'a num_ops \<Rightarrow> int list \<Rightarrow> Matrix \<Rightarrow> int \<Rightarrow> 'a store \<Rightarrow> 'a store" where
  \<comment> \<open>the body of the loop that applies the row interchanges to \<open>B\<close>. When \<^verbatim>\<open>ipiv[k]\<close> is
      \<^verbatim>\<open>undefined\<close> the row index is NaN: the read at it is \<^verbatim>\<open>undefined\<close>, the store at it
      is ignored, and both fall outside the buffer.\<close>
  "apply_pivot ops ipiv B k s =
     (case i32_get ipiv k of
        Some p \<Rightarrow>
          let pivotRow = p - 1 in
          if pivotRow \<noteq> k then swap_rows ops B k pivotRow (cols B) s else s
      | None \<Rightarrow>
          fold (\<lambda>j t. let (temp, t1) = getElementU B k j t
                       in (setElementU B k j (fnan ops) t1)\<lparr>faulted := True\<rparr>)
               [0..cols B - 1] s)"

definition axpy_row :: "'a num_ops \<Rightarrow> Matrix \<Rightarrow> Matrix \<Rightarrow> int \<Rightarrow> int \<Rightarrow> 'a store \<Rightarrow> 'a store" where
  \<comment> \<open>\<^verbatim>\<open>B[i,j] = B[i,j] - A[i,k] * B[k,j]\<close> for every column \<open>j\<close> of \<open>B\<close>: the body of
      the loop over \<open>i\<close> in both substitutions\<close>
  "axpy_row ops A B k i s =
     (let (factor, s1) = getElementU A i k s
      in fold (\<lambda>j t.
                 let (a, t1) = getElementU B i j t;
                     (b, t2) = getElementU B k j t1;
                     newVal = fsub ops (to_number ops a)
                                (fmul ops (to_number ops factor) (to_number ops b))
                 in setElementU B i j newVal t2)
              [0..cols B - 1] s1)"

definition forward_subst :: "'a num_ops \<Rightarrow> Matrix \<Rightarrow> Matrix \<Rightarrow> 'a store \<Rightarrow> 'a store" where
  "forward_subst ops A B s =
     fold (\<lambda>k t. fold (axpy_row ops A B k) [k + 1..rows A - 1] t) [0..rows A - 1 - 1] s"

definition back_step :: "'a num_ops \<Rightarrow> Matrix \<Rightarrow> Matrix \<Rightarrow> int \<Rightarrow> 'a store \<Rightarrow> 'a store" where
  \<comment> \<open>the body of the descending loop over \<open>k\<close> of the back substitution\<close>
  "back_step ops A B k s =
     (let (pivot, s1) = getElementU A k k s;
          s2 = fold (\<lambda>j t. let (x, t1) = getElementU B k j t
                            in setElementU B k j (fdiv ops (to_number ops x) (to_number ops pivot)) t1)
                    [0..cols B - 1] s1
      in fold (axpy_row ops A B k) [0..k - 1] s2)"

definition back_subst :: "'a num_ops \<Rightarrow> Matrix \<Rightarrow> Matrix \<Rightarrow> 'a store \<Rightarrow> 'a store" where
  "back_subst ops A B s = fold (back_step ops A B) (rev [0..rows A - 1]) s"

definition dgetrs ::
  "'a num_ops \<Rightarrow> trans \<Rightarrow> Matrix \<Rightarrow> int list \<Rightarrow> Matrix \<Rightarrow> 'a store \<Rightarrow> error + (int \<times> 'a store)" where
  "dgetrs ops tr A ipiv B s =
     (if tr \<noteq> N then Inl (LapackError (- 1) ''DGETRS'')
      else
        let s1 = fold (apply_pivot ops ipiv B) [0..rows A - 1] s;
            s2 = forward_subst ops A B s1;
            s3 = back_subst ops A B s2
        in Inr (0, s3))"

subsection \<open>DGESV\<close>

definition new_Int32Array :: "int \<Rightarrow> error + int list" where
  "new_Int32Array n = (if n < 0 then Inl RangeError else Inr (replicate (nat n) 0))"

definition work_copy ::
  "'a num_ops \<Rightarrow> bool \<Rightarrow> Matrix \<Rightarrow> int \<Rightarrow> int \<Rightarrow> 'a store \<Rightarrow> error + (Matrix \<times> 'a store)" where
  \<comment> \<open>\<^verbatim>\<open>overwriteInput ? M : createFloat64Matrix(r, c, { layout: M.layout })\<close>\<close>
  "work_copy ops overwrite M r c s =
     (if overwrite then Inr (M, s)
      else createFloat64Matrix ops r c \<lparr>opt_layout = Some (layout M), initialValue = None\<rparr> s)"

definition working_copies ::
  "'a num_ops \<Rightarrow> bool \<Rightarrow> Matrix \<Rightarrow> Matrix \<Rightarrow> 'a store \<Rightarrow> error + (Matrix \<times> Matrix \<times> 'a store)" where
  \<comment> \<open>the block \<^verbatim>\<open>// Create working copies if not overwriting input\<close>, with
      \<open>n = rows A\<close> and \<open>nrhs = cols B\<close>\<close>
  "working_copies ops overwrite A B s =
     (case work_copy ops overwrite A (rows A) (rows A) s of
        Inl e \<Rightarrow> Inl e
      | Inr (workA, s1) \<Rightarrow>
     (case work_copy ops overwrite B (rows A) (cols B) s1 of
        Inl e \<Rightarrow> Inl e
      | Inr (workB, s2) \<Rightarrow>
          if \<not> overwrite then
            (case copyMatrix ops A workA s2 of
               Inl e \<Rightarrow> Inl e
             | Inr s3 \<Rightarrow>
            (case copyMatrix ops B workB s3 of
               Inl e \<Rightarrow> Inl e
             | Inr s4 \<Rightarrow> Inr (workA, workB, s4)))
          else Inr (workA, workB, s2)))"

definition failed :: "int \<Rightarrow> LapackResultWithData" where
  \<comment> \<open>\<^verbatim>\<open>{ info, result: {} as DgesvOutput }\<close>\<close>
  "failed i = \<lparr>info = i, result = None\<rparr>"

definition factor_and_solve ::
  "'a num_ops \<Rightarrow> int \<Rightarrow> Matrix \<Rightarrow> Matrix \<Rightarrow> 'a store \<Rightarrow> error + (LapackResultWithData \<times> 'a store)" where
  \<comment> \<open>the rest of \<^verbatim>\<open>dgesv\<close>, from \<^verbatim>\<open>// Perform LU factorization\<close> on\<close>
  "factor_and_solve ops n workA workB s =
     (case new_Int32Array n of
        Inl e \<Rightarrow> Inl e
      | Inr ipiv0 \<Rightarrow>
     (case dgetrf ops workA ipiv0 s of (luInfo, ipiv, s1) \<Rightarrow>
        if luInfo \<noteq> 0 then Inr (failed luInfo, s1)
        else
          (case dgetrs ops N workA ipiv workB s1 of
             Inl e \<Rightarrow> Inl e
           | Inr (solveInfo, s2) \<Rightarrow>
               if solveInfo \<noteq> 0 then Inr (failed solveInfo, s2)
               else Inr (\<lparr>info = 0,
                          result = Some \<lparr>solution = workB, LU = workA, pivots = ipiv\<rparr>\<rparr>,
                         s2))))"

definition dgesv ::
  "'a num_ops \<Rightarrow> DgesvInput \<Rightarrow> 'a store \<Rightarrow> error + (LapackResultWithData \<times> 'a store)" where
  "dgesv ops inp s =
     (let A = input_A inp; B = input_B inp;
          overwrite = (case overwriteInput inp of None \<Rightarrow> False | Some b \<Rightarrow> b)
      in
      if rows A \<noteq> cols A then Inr (failed (- 1), s)
      else if rows A \<noteq> rows B then Inr (failed (- 1), s)
      else
        case validateParameters (Some (rows A)) (Some (cols B))
               (Some (leadingDimension A)) (Some (leadingDimension B)) (Some ''DGESV'') of
          Inl (LapackError i f) \<Rightarrow> Inr (failed i, s)
        | Inl e \<Rightarrow> Inl e
        | Inr _ \<Rightarrow>
           (case working_copies ops overwrite A B s of
              Inl e \<Rightarrow> Inl e
            | Inr (workA, workB, s1) \<Rightarrow> factor_and_solve ops (rows A) workA workB s1))"

section \<open>binary64\<close>

text \<open>
  The repository has no arithmetic of its own: an element is the runtime's Number, an
  IEEE-754 binary64 value, and the operations are those of ECMAScript (round to nearest,
  ties to even). This section writes them out, to run the code on concrete inputs. A value is NaN, an infinity with its sign,
  or a finite number given by its sign and its magnitude, so that the two zeros are
  distinct. The magnitude of a finite value is a multiple of \<open>2 ^ - 1074\<close> that fits in
  53 significant bits.
\<close>

datatype double = Finite bool rat | Infinity bool | NaN

function ilog2 :: "int \<Rightarrow> int" where
  \<comment> \<open>for \<open>n \<ge> 1\<close>, the \<open>e\<close> with \<open>2 ^ e \<le> n < 2 ^ (e + 1)\<close>\<close>
  "ilog2 n = (if n < 2 then 0 else 1 + ilog2 (n div 2))"
  by pat_completeness auto
termination
  by (relation "measure nat") auto

declare ilog2.simps [simp del]

definition pow2 :: "int \<Rightarrow> rat" where
  "pow2 e = (if 0 \<le> e then 2 ^ nat e else 1 / 2 ^ nat (- e))"

definition floor_log2 :: "rat \<Rightarrow> int" where
  \<comment> \<open>for \<open>a > 0\<close>, the \<open>e\<close> with \<open>2 ^ e \<le> a < 2 ^ (e + 1)\<close>\<close>
  "floor_log2 a = (if 1 \<le> a then ilog2 \<lfloor>a\<rfloor> else - (ilog2 (\<lceil>1 / a\<rceil> - 1) + 1))"

definition round_half_even :: "rat \<Rightarrow> int" where
  "round_half_even r =
     (let f = \<lfloor>r\<rfloor>; d = r - of_int f
      in if d < 1 / 2 then f else if 1 / 2 < d then f + 1 else if even f then f else f + 1)"

definition round64 :: "bool \<Rightarrow> rat \<Rightarrow> double" where
  \<comment> \<open>the binary64 value nearest to the real number of sign \<open>sg\<close> and magnitude \<open>a \<ge> 0\<close>\<close>
  "round64 sg a =
     (if a = 0 then Finite sg 0
      else
        let e = max (floor_log2 a) (- 1022);
            q = pow2 (e - 52);
            r = of_int (round_half_even (a / q)) * q
        in if e < 1023 then Finite sg r
           else if pow2 1024 \<le> r then Infinity sg else Finite sg r)"

definition signed :: "bool \<Rightarrow> rat \<Rightarrow> rat" where
  "signed sg a = (if sg then - a else a)"

fun d_abs :: "double \<Rightarrow> double" where
  "d_abs (Finite sg a) = Finite False a"
| "d_abs (Infinity sg) = Infinity False"
| "d_abs NaN = NaN"

fun d_neg :: "double \<Rightarrow> double" where
  "d_neg (Finite sg a) = Finite (\<not> sg) a"
| "d_neg (Infinity sg) = Infinity (\<not> sg)"
| "d_neg NaN = NaN"

fun d_add :: "double \<Rightarrow> double \<Rightarrow> double" where
  "d_add (Finite s1 a1) (Finite s2 a2) =
     (let v = signed s1 a1 + signed s2 a2
      in if v = 0 then Finite (s1 \<and> s2) 0 else round64 (v < 0) \<bar>v\<bar>)"
| "d_add (Finite s1 a1) (Infinity s2) = Infinity s2"
| "d_add (Infinity s1) (Finite s2 a2) = Infinity s1"
| "d_add (Infinity s1) (Infinity s2) = (if s1 = s2 then Infinity s1 else NaN)"
| "d_add NaN y = NaN"
| "d_add x NaN = NaN"

definition d_sub :: "double \<Rightarrow> double \<Rightarrow> double" where
  "d_sub x y = d_add x (d_neg y)"

fun d_mul :: "double \<Rightarrow> double \<Rightarrow> double" where
  "d_mul (Finite s1 a1) (Finite s2 a2) = round64 (s1 \<noteq> s2) (a1 * a2)"
| "d_mul (Finite s1 a1) (Infinity s2) = (if a1 = 0 then NaN else Infinity (s1 \<noteq> s2))"
| "d_mul (Infinity s1) (Finite s2 a2) = (if a2 = 0 then NaN else Infinity (s1 \<noteq> s2))"
| "d_mul (Infinity s1) (Infinity s2) = Infinity (s1 \<noteq> s2)"
| "d_mul NaN y = NaN"
| "d_mul x NaN = NaN"

fun d_div :: "double \<Rightarrow> double \<Rightarrow> double" where
  "d_div (Finite s1 a1) (Finite s2 a2) =
     (if a2 = 0 then (if a1 = 0 then NaN else Infinity (s1 \<noteq> s2))
      else round64 (s1 \<noteq> s2) (a1 / a2))"
| "d_div (Finite s1 a1) (Infinity s2) = Finite (s1 \<noteq> s2) 0"
| "d_div (Infinity s1) (Finite s2 a2) = Infinity (s1 \<noteq> s2)"
| "d_div (Infinity s1) (Infinity s2) = NaN"
| "d_div NaN y = NaN"
| "d_div x NaN = NaN"

fun d_gt :: "double \<Rightarrow> double \<Rightarrow> bool" where
  "d_gt (Finite s1 a1) (Finite s2 a2) \<longleftrightarrow> signed s2 a2 < signed s1 a1"
| "d_gt (Finite s1 a1) (Infinity s2) \<longleftrightarrow> s2"
| "d_gt (Infinity s1) (Finite s2 a2) \<longleftrightarrow> \<not> s1"
| "d_gt (Infinity s1) (Infinity s2) \<longleftrightarrow> \<not> s1 \<and> s2"
| "d_gt NaN y \<longleftrightarrow> False"
| "d_gt x NaN \<longleftrightarrow> False"

fun d_eq0 :: "double \<Rightarrow> bool" where
  "d_eq0 (Finite sg a) \<longleftrightarrow> a = 0"
| "d_eq0 (Infinity sg) \<longleftrightarrow> False"
| "d_eq0 NaN \<longleftrightarrow> False"

definition binary64 :: "double num_ops" where
  "binary64 = \<lparr>fabs = d_abs, fsub = d_sub, fmul = d_mul, fdiv = d_div,
               fgt = d_gt, feq0 = d_eq0, fzero = Finite False 0, fnan = NaN\<rparr>"

section \<open>Notions used in the statements and proofs\<close>

text \<open>
  \<open>only_at a s t\<close>: store \<open>t\<close> has the buffers of \<open>s\<close>, with the same lengths, and
  differs from \<open>s\<close> at most in the contents of buffer \<open>a\<close>. \<open>well_formed m s\<close>: the
  buffer of \<open>m\<close> exists, holds at least \<open>rows * cols\<close> elements, and the leading
  dimension is the canonical one of the layout. \<open>valid_input\<close>: the shape checks and
  \<^verbatim>\<open>validateParameters\<close> of \<^verbatim>\<open>dgesv\<close> pass.
\<close>

definition same_shape :: "'a store \<Rightarrow> 'a store \<Rightarrow> bool" where
  "same_shape s t \<longleftrightarrow> map length (bufs t) = map length (bufs s)"

definition only_at :: "nat \<Rightarrow> 'a store \<Rightarrow> 'a store \<Rightarrow> bool" where
  "only_at a s t \<longleftrightarrow> same_shape s t \<and> (\<forall>b. b \<noteq> a \<longrightarrow> bufs t ! b = bufs s ! b)"

definition dense :: "Matrix \<Rightarrow> 'a store \<Rightarrow> bool" where
  "dense m s \<longleftrightarrow>
     data m < length (bufs s) \<and> 0 \<le> rows m \<and> 0 \<le> cols m \<and>
     leadingDimension m = (if layout m = ColumnMajor then rows m else cols m) \<and>
     rows m * cols m \<le> int (length (bufs s ! data m))"

definition safe :: "'a store \<Rightarrow> 'a store \<Rightarrow> bool" where
  "safe s t \<longleftrightarrow> same_shape s t \<and> faulted t = faulted s"

definition pivots_upto :: "int \<Rightarrow> int \<Rightarrow> int list \<Rightarrow> bool" where
  "pivots_upto n k ipiv \<longleftrightarrow>
     length ipiv = nat n \<and> (\<forall>j. 0 \<le> j \<and> j < k \<and> j < n \<longrightarrow> 1 \<le> ipiv ! nat j \<and> ipiv ! nat j \<le> n)"

definition copied :: "nat \<Rightarrow> 'a store \<Rightarrow> error + 'a store \<Rightarrow> bool" where
  "copied a s r \<longleftrightarrow> (\<exists>t. r = Inr t \<and> only_at a s t \<and> faulted t = faulted s)"

definition fresh_A :: "Matrix \<Rightarrow> 'a store \<Rightarrow> Matrix" where
  "fresh_A A s = \<lparr>data = length (bufs s), rows = rows A, cols = rows A, layout = layout A,
                   leadingDimension = rows A\<rparr>"

definition fresh_B :: "Matrix \<Rightarrow> Matrix \<Rightarrow> 'a store \<Rightarrow> Matrix" where
  "fresh_B A B s = \<lparr>data = Suc (length (bufs s)), rows = rows A, cols = cols B, layout = layout B,
                     leadingDimension = (if layout B = ColumnMajor then rows A else cols B)\<rparr>"

definition overwrite_of :: "DgesvInput \<Rightarrow> bool" where
  "overwrite_of inp = (case overwriteInput inp of None \<Rightarrow> False | Some b \<Rightarrow> b)"

definition valid_input :: "DgesvInput \<Rightarrow> bool" where
  \<comment> \<open>the shape checks and \<^verbatim>\<open>validateParameters\<close> of \<^verbatim>\<open>dgesv\<close> all pass\<close>
  "valid_input inp \<longleftrightarrow>
     rows (input_A inp) = cols (input_A inp) \<and> rows (input_A inp) = rows (input_B inp) \<and>
     0 \<le> rows (input_A inp) \<and> 0 \<le> cols (input_B inp) \<and>
     max 1 (rows (input_A inp)) \<le> leadingDimension (input_A inp) \<and>
     max 1 (rows (input_A inp)) \<le> leadingDimension (input_B inp)"

definition well_formed :: "Matrix \<Rightarrow> 'a store \<Rightarrow> bool" where
  "well_formed m s \<longleftrightarrow>
     data m < length (bufs s) \<and>
     rows m * cols m \<le> int (length (bufs s ! data m)) \<and>
     leadingDimension m = (if layout m = ColumnMajor then rows m else cols m)"

section \<open>Concrete inputs\<close>

text \<open>
  \<open>dbl q\<close> is the binary64 value equal to the rational \<open>q\<close> (for a representable
  \<open>q\<close>), \<open>mat d r c lay\<close> the matrix \<^verbatim>\<open>createMatrix\<close> builds on buffer \<open>d\<close>, and
  \<open>store_of\<close> a store with the given buffers. The constants after them name the
  stores a run of \<^verbatim>\<open>dgesv\<close> passes through on four inputs: the system
  \<open>[[2,1],[1,3]] x = [3,4]\<close> with and without \<^verbatim>\<open>overwriteInput\<close>, the singular matrix
  \<open>[[1,2],[2,4]]\<close>, and the matrix \<open>[[25,25],[7,7]]\<close> whose rows are proportional. Buffers are
  column-major.
\<close>

definition dbl :: "rat \<Rightarrow> double" where
  "dbl q = Finite (q < 0) \<bar>q\<bar>"

definition mat :: "nat \<Rightarrow> int \<Rightarrow> int \<Rightarrow> MatrixLayout \<Rightarrow> Matrix" where
  "mat d r c lay = \<lparr>data = d, rows = r, cols = c, layout = lay,
                     leadingDimension = (if lay = ColumnMajor then r else c)\<rparr>"

definition store_of :: "rat list list \<Rightarrow> double store" where
  "store_of xss = \<lparr>bufs = map (map dbl) xss, faulted = False\<rparr>"

definition solve_s0 :: "double store" where
  "solve_s0 = store_of [[2, 1, 1, 3], [3, 4]]"

definition solve_A :: Matrix where
  "solve_A = mat 2 2 2 ColumnMajor"

definition solve_B :: Matrix where
  "solve_B = mat 3 2 1 ColumnMajor"

definition solve_s1 :: "double store" where
  "solve_s1 = store_of [[2, 1, 1, 3], [3, 4], [2, 1, 1, 3], [3, 4]]"

definition solve_s2 :: "double store" where
  "solve_s2 = store_of [[2, 1, 1, 3], [3, 4], [2, 1 / 2, 1, 5 / 2], [3, 4]]"

definition solve_s3 :: "double store" where
  "solve_s3 = store_of [[2, 1, 1, 3], [3, 4], [2, 1 / 2, 1, 5 / 2], [1, 1]]"

definition inplace_s0 :: "double store" where
  "inplace_s0 = store_of [[2, 1, 1, 3], [3, 4]]"

definition inplace_A :: Matrix where
  "inplace_A = mat 0 2 2 ColumnMajor"

definition inplace_B :: Matrix where
  "inplace_B = mat 1 2 1 ColumnMajor"

definition inplace_s1 :: "double store" where
  "inplace_s1 = store_of [[2, 1 / 2, 1, 5 / 2], [3, 4]]"

definition inplace_s2 :: "double store" where
  "inplace_s2 = store_of [[2, 1 / 2, 1, 5 / 2], [1, 1]]"

definition singular_s0 :: "double store" where
  "singular_s0 = store_of [[1, 2, 2, 4], [1, 2]]"

definition singular_A :: Matrix where
  "singular_A = mat 2 2 2 ColumnMajor"

definition singular_B :: Matrix where
  "singular_B = mat 3 2 1 ColumnMajor"

definition singular_s1 :: "double store" where
  "singular_s1 = store_of [[1, 2, 2, 4], [1, 2], [1, 2, 2, 4], [1, 2]]"

definition singular_s2 :: "double store" where
  "singular_s2 = store_of [[1, 2, 2, 4], [1, 2], [2, 1, 2, 4], [1, 2]]"

definition singular_s3 :: "double store" where
  "singular_s3 = store_of [[1, 2, 2, 4], [1, 2], [2, 1, 4, 2], [1, 2]]"

definition singular_s4 :: "double store" where
  "singular_s4 = store_of [[1, 2, 2, 4], [1, 2], [2, 1 / 2, 4, 0], [1, 2]]"

definition dependent_s0 :: "double store" where
  "dependent_s0 = store_of [[25, 7, 25, 7], [1, 1]]"

definition dependent_A :: Matrix where
  "dependent_A = mat 2 2 2 ColumnMajor"

definition dependent_B :: Matrix where
  "dependent_B = mat 3 2 1 ColumnMajor"

definition dependent_s1 :: "double store" where
  "dependent_s1 = store_of [[25, 7, 25, 7], [1, 1], [25, 7, 25, 7], [1, 1]]"

definition dependent_s2 :: "double store" where
  "dependent_s2 = store_of [[25, 7, 25, 7], [1, 1], [25, 1261007895663739 / 4503599627370496, 25, -1 / 1125899906842624], [1, 1]]"

definition dependent_s3 :: "double store" where
  "dependent_s3 = store_of [[25, 7, 25, 7], [1, 1], [25, 1261007895663739 / 4503599627370496, 25, -1 / 1125899906842624], [3242591731706757 / 4, -3242591731706757 / 4]]"

section \<open>Auxiliary lemmas\<close>

lemma fold_invariant:
  assumes "P s" and "\<And>x t. x \<in> set xs \<Longrightarrow> P t \<Longrightarrow> P (f x t)"
  shows "P (fold f xs s)"
  using assms by (induction xs arbitrary: s) auto

lemma same_shape_refl [simp]: "same_shape s s"
  by (simp add: same_shape_def)

lemma same_shape_trans: "same_shape s t \<Longrightarrow> same_shape t u \<Longrightarrow> same_shape s u"
  by (simp add: same_shape_def)

lemma same_shape_length: "same_shape s t \<Longrightarrow> length (bufs t) = length (bufs s)"
  unfolding same_shape_def by (metis length_map)

lemma same_shape_nth:
  "same_shape s t \<Longrightarrow> b < length (bufs s) \<Longrightarrow> length (bufs t ! b) = length (bufs s ! b)"
proof -
  assume h: "same_shape s t" and b: "b < length (bufs s)"
  have "map length (bufs t) ! b = map length (bufs s) ! b"
    using h by (simp add: same_shape_def)
  then show ?thesis using b same_shape_length[OF h] by simp
qed

lemma same_shape_in_bounds: "same_shape s t \<Longrightarrow> in_bounds t a idx = in_bounds s a idx"
  using same_shape_length[of s t] same_shape_nth[of s t a]
  by (auto simp: in_bounds_def)

lemma only_at_refl [simp]: "only_at a s s"
  by (simp add: only_at_def)

lemma only_at_trans: "only_at a s t \<Longrightarrow> only_at a t u \<Longrightarrow> only_at a s u"
  by (auto simp: only_at_def intro: same_shape_trans)

lemma only_at_shape: "only_at a s t \<Longrightarrow> same_shape s t"
  by (simp add: only_at_def)

subsection \<open>The accessors\<close>

lemma bufs_touch [simp]: "bufs (touch s a idx) = bufs s"
  by (simp add: touch_def)

lemma faulted_touch [simp]: "faulted (touch s a idx) = (faulted s \<or> \<not> in_bounds s a idx)"
  by (simp add: touch_def)

lemma in_bounds_touch [simp]: "in_bounds (touch s a idx) b k = in_bounds s b k"
  by (simp add: in_bounds_def)

lemma faulted_ta_set [simp]: "faulted (ta_set s a idx v) = faulted s"
  by (simp add: ta_set_def)

lemma same_shape_ta_set: "same_shape s (ta_set s a idx v)"
  by (simp add: ta_set_def same_shape_def in_bounds_def map_update list_update_same_conv)

lemma only_at_ta_set: "only_at a s (ta_set s a idx v)"
  by (simp add: only_at_def same_shape_ta_set) (simp add: ta_set_def)

lemma same_shape_bufs_eq: "bufs t = bufs s \<Longrightarrow> same_shape s t"
  by (simp add: same_shape_def)

lemma only_at_bufs_eq: "bufs t = bufs s \<Longrightarrow> only_at a s t"
  by (simp add: only_at_def same_shape_def)

lemma bufs_getElementU [simp]: "bufs (snd (getElementU m i j s)) = bufs s"
  by (simp add: getElementU_def Let_def)

lemma only_at_getElementU: "getElementU m i j s = (x, t) \<Longrightarrow> only_at a s t"
  using bufs_getElementU[of m i j s] by (simp add: only_at_bufs_eq)


lemma only_at_get [simp]: "only_at a s (snd (getElementU m i j t)) = only_at a s t"
  by (simp add: only_at_def same_shape_def)


subsection \<open>Frame: each routine of the solver writes to one buffer only\<close>






lemma only_at_faulted_update [simp]: "only_at a s (t\<lparr>faulted := x\<rparr>) = only_at a s t"
  by (simp add: only_at_def same_shape_def)






lemma dgetrs_N:
  "dgetrs ops N A ipiv B s =
     Inr (0, back_subst ops A B (forward_subst ops A B
               (fold (apply_pivot ops ipiv B) [0..rows A - 1] s)))"
  by (simp add: dgetrs_def)


subsection \<open>Safety: on a dense matrix every access with indices in range is in bounds\<close>

lemma safe_refl [simp]: "safe s s"
  by (simp add: safe_def)

lemma offset_bound:
  fixes i j r c :: int
  assumes "0 \<le> i" "i < r" "0 \<le> j" "j < c"
  shows "0 \<le> j * r + i" and "j * r + i < r * c"
proof -
  show "0 \<le> j * r + i" using assms by simp
  have "(j + 1) * r \<le> c * r"
    using assms by (intro mult_right_mono) auto
  then show "j * r + i < r * c"
    using assms by (simp add: algebra_simps)
qed

lemma dense_in_bounds:
  assumes "dense m s" "0 \<le> i" "i < rows m" "0 \<le> j" "j < cols m"
  shows "in_bounds s (data m) (offset m i j)"
proof (cases "layout m = ColumnMajor")
  case True
  then show ?thesis
    using assms offset_bound[of i "rows m" j "cols m"]
    by (simp add: dense_def in_bounds_def offset_def)
next
  case False
  then show ?thesis
    using assms offset_bound[of j "cols m" i "rows m"]
    by (simp add: dense_def in_bounds_def offset_def mult.commute)
qed

lemma dense_same_shape: "same_shape s t \<Longrightarrow> dense m s \<Longrightarrow> dense m t"
  using same_shape_length[of s t] same_shape_nth[of s t "data m"]
  by (simp add: dense_def)

lemma safe_in_bounds: "safe s t \<Longrightarrow> in_bounds t a idx = in_bounds s a idx"
  by (simp add: safe_def same_shape_in_bounds)

lemma safe_get:
  assumes "dense m s" "0 \<le> i" "i < rows m" "0 \<le> j" "j < cols m" "safe s t"
  shows "safe s (snd (getElementU m i j t))"
  using assms dense_in_bounds[OF assms(1-5)] safe_in_bounds[OF assms(6)]
  by (simp add: getElementU_def Let_def safe_def same_shape_def)

lemma safe_set:
  assumes "dense m s" "0 \<le> i" "i < rows m" "0 \<le> j" "j < cols m" "safe s t"
  shows "safe s (setElementU m i j v t)"
proof -
  let ?u = "touch t (data m) (offset m i j)"
  have "safe s ?u"
    using assms dense_in_bounds[OF assms(1-5)] safe_in_bounds[OF assms(6)]
    by (simp add: safe_def same_shape_def)
  moreover have "same_shape ?u (ta_set ?u (data m) (offset m i j) v)"
    by (rule same_shape_ta_set)
  ultimately show ?thesis
    by (auto simp: setElementU_def Let_def safe_def intro: same_shape_trans)
qed

lemma safe_faulted: "safe s t \<Longrightarrow> faulted t = faulted s"
  by (simp add: safe_def)

lemma safe_shape: "safe s t \<Longrightarrow> same_shape s t"
  by (simp add: safe_def)

lemma pivot_scan_safe:
  assumes "dense A s" "0 \<le> k" "k < rows A" "k < cols A" "safe s t"
  shows "safe s (snd (snd (pivot_scan ops A k t)))
         \<and> k \<le> fst (snd (pivot_scan ops A k t))
         \<and> fst (snd (pivot_scan ops A k t)) < rows A"
  unfolding pivot_scan_def
  by (rule fold_invariant[where P = "\<lambda>r. safe s (snd (snd r)) \<and> k \<le> fst (snd r) \<and> fst (snd r) < rows A"])
     (use assms in \<open>auto simp: case_prod_beta Let_def intro!: safe_get\<close>)

lemma swap_rows_safe:
  assumes "dense M s" "0 \<le> k" "k < rows M" "0 \<le> r" "r < rows M" "w \<le> cols M" "safe s t"
  shows "safe s (swap_rows ops M k r w t)"
  unfolding swap_rows_def
  by (rule fold_invariant)
     (use assms in \<open>auto simp: swap_cell_def case_prod_beta Let_def intro!: safe_get safe_set\<close>)

lemma eliminate_row_safe:
  assumes "dense A s" "0 \<le> k" "k < rows A" "rows A \<le> cols A" "0 \<le> i" "i < rows A" "safe s t"
  shows "safe s (eliminate_row ops A k pivot i t)"
  unfolding eliminate_row_def case_prod_beta Let_def
  by (rule fold_invariant)
     (use assms in \<open>auto simp: case_prod_beta Let_def intro!: safe_get safe_set\<close>)

lemma eliminate_safe:
  assumes "dense A s" "0 \<le> k" "k < rows A" "rows A \<le> cols A" "safe s t"
  shows "safe s (eliminate ops A k t)"
  unfolding eliminate_def case_prod_beta Let_def
  by (rule fold_invariant)
     (use assms in \<open>auto intro!: safe_get eliminate_row_safe\<close>)

subsection \<open>One column of DGETRF at a time\<close>

lemma dgetrf_loop_stop: "\<not> k < rows A \<Longrightarrow> dgetrf_loop ops A k ipiv s = (0, ipiv, s)"
  by (subst dgetrf_loop.simps) simp

lemma dgetrf_loop_singular:
  "k < rows A \<Longrightarrow> pivot_scan ops A k s = (maxVal, maxRow, s1) \<Longrightarrow> feq0 ops maxVal \<Longrightarrow>
   dgetrf_loop ops A k ipiv s = (k + 1, i32_set ipiv k (maxRow + 1), s1)"
  by (subst dgetrf_loop.simps) simp

lemma dgetrf_loop_step:
  "k < rows A \<Longrightarrow> pivot_scan ops A k s = (maxVal, maxRow, s1) \<Longrightarrow> \<not> feq0 ops maxVal \<Longrightarrow>
   dgetrf_loop ops A k ipiv s =
     dgetrf_loop ops A (k + 1) (i32_set ipiv k (maxRow + 1))
       (eliminate ops A k (if maxRow \<noteq> k then swap_rows ops A k maxRow (rows A) s1 else s1))"
  by (subst dgetrf_loop.simps) (simp add: Let_def)

lemma wrap32_id: "- (2 ^ 31) \<le> x \<Longrightarrow> x < 2 ^ 31 \<Longrightarrow> wrap32 x = x"
  by (simp add: wrap32_def)

lemma pivots_upto_set:
  assumes "pivots_upto n k ipiv" "0 \<le> k" "k < n" "n < 2 ^ 31" "k \<le> r" "r < n"
  shows "pivots_upto n (k + 1) (i32_set ipiv k (r + 1))"
proof -
  have w: "wrap32 (r + 1) = r + 1"
    using assms by (intro wrap32_id) auto
  have len: "length ipiv = nat n" using assms by (simp add: pivots_upto_def)
  have "1 \<le> (ipiv[nat k := r + 1]) ! nat j \<and> (ipiv[nat k := r + 1]) ! nat j \<le> n"
    if "0 \<le> j" "j < k + 1" "j < n" for j
  proof (cases "j = k")
    case True
    then show ?thesis using assms len by simp
  next
    case False
    then have "nat j \<noteq> nat k" using that assms by auto
    then show ?thesis using assms that False by (simp add: pivots_upto_def)
  qed
  then show ?thesis
    using assms len w by (simp add: pivots_upto_def i32_set_def)
qed

lemma dgetrf_loop_safe:
  "dense A s \<Longrightarrow> rows A = cols A \<Longrightarrow> rows A < 2 ^ 31 \<Longrightarrow>
   0 \<le> k \<Longrightarrow> safe s t \<Longrightarrow> pivots_upto (rows A) k ipiv \<Longrightarrow>
   dgetrf_loop ops A k ipiv t = (i, ipiv', t') \<Longrightarrow>
   safe s t' \<and> 0 \<le> i \<and> (i = 0 \<longrightarrow> pivots_upto (rows A) (rows A) ipiv')"
proof (induction ops A k ipiv t rule: dgetrf_loop.induct)
  case (1 ops A k ipiv t)
  show ?case
  proof (cases "k < rows A")
    case False
    then have "pivots_upto (rows A) (rows A) ipiv"
      using "1.prems"(6) by (simp add: pivots_upto_def)
    then show ?thesis
      using False "1.prems" by (simp add: dgetrf_loop_stop)
  next
    case True
    obtain maxVal maxRow t1 where ps: "pivot_scan ops A k t = (maxVal, maxRow, t1)"
      by (cases "pivot_scan ops A k t") auto
    have scan: "safe s t1 \<and> k \<le> maxRow \<and> maxRow < rows A"
      using pivot_scan_safe[of A s k t ops] "1.prems" True ps by simp
    show ?thesis
    proof (cases "feq0 ops maxVal")
      case True
      then show ?thesis
        using \<open>k < rows A\<close> ps scan "1.prems" by (simp add: dgetrf_loop_singular)
    next
      case False
      define t2 where "t2 = (if maxRow \<noteq> k then swap_rows ops A k maxRow (rows A) t1 else t1)"
      define t3 where "t3 = eliminate ops A k t2"
      define ipiv1 where "ipiv1 = i32_set ipiv k (maxRow + 1)"
      have "safe s t2"
        using scan "1.prems" True by (auto simp: t2_def intro!: swap_rows_safe)
      then have t3: "safe s t3"
        using "1.prems" True by (auto simp: t3_def intro!: eliminate_safe)
      have piv: "pivots_upto (rows A) (k + 1) ipiv1"
        unfolding ipiv1_def using "1.prems" True scan by (intro pivots_upto_set) auto
      have run: "dgetrf_loop ops A (k + 1) ipiv1 t3 = (i, ipiv', t')"
        using "1.prems"(7) dgetrf_loop_step[OF True ps False, of ipiv]
        by (simp add: t2_def t3_def ipiv1_def)
      show ?thesis
        using "1.IH"[OF True ps[symmetric] refl refl False t2_def t3_def
                        "1.prems"(1-3) _ t3 _ _] "1.prems"(4) piv run
        by (simp add: ipiv1_def)
    qed
  qed
qed

lemma apply_pivot_safe:
  assumes "dense B s" "pivots_upto (rows B) (rows B) ipiv" "0 \<le> k" "k < rows B" "safe s t"
  shows "safe s (apply_pivot ops ipiv B k t)"
proof -
  have get: "i32_get ipiv k = Some (ipiv ! nat k)"
    using assms by (simp add: i32_get_def pivots_upto_def)
  have "1 \<le> ipiv ! nat k \<and> ipiv ! nat k \<le> rows B"
    using assms by (simp add: pivots_upto_def)
  then show ?thesis
    using assms get by (auto simp: apply_pivot_def Let_def intro!: swap_rows_safe)
qed

lemma axpy_row_safe:
  assumes "dense A s" "dense B s" "0 \<le> i" "i < rows A" "0 \<le> k" "k < cols A"
    "i < rows B" "k < rows B" "safe s t"
  shows "safe s (axpy_row ops A B k i t)"
  unfolding axpy_row_def case_prod_beta Let_def
  by (rule fold_invariant)
     (use assms in \<open>auto simp: case_prod_beta Let_def intro!: safe_get safe_set\<close>)

lemma forward_subst_safe:
  assumes "dense A s" "dense B s" "rows A = cols A" "rows B = rows A" "safe s t"
  shows "safe s (forward_subst ops A B t)"
  unfolding forward_subst_def
  by (rule fold_invariant, rule assms, rule fold_invariant)
     (use assms in \<open>auto intro!: axpy_row_safe\<close>)

lemma back_step_safe:
  assumes "dense A s" "dense B s" "rows A = cols A" "rows B = rows A"
    "0 \<le> k" "k < rows A" "safe s t"
  shows "safe s (back_step ops A B k t)"
  unfolding back_step_def case_prod_beta Let_def
  by (rule fold_invariant, rule fold_invariant)
     (use assms in \<open>auto simp: case_prod_beta Let_def intro!: safe_get safe_set axpy_row_safe\<close>)

lemma back_subst_safe:
  assumes "dense A s" "dense B s" "rows A = cols A" "rows B = rows A" "safe s t"
  shows "safe s (back_subst ops A B t)"
  unfolding back_subst_def
  by (rule fold_invariant) (use assms in \<open>auto intro!: back_step_safe\<close>)

lemma dgetrs_safe:
  assumes "dense A s" "dense B s" "rows A = cols A" "rows B = rows A"
    "pivots_upto (rows A) (rows A) ipiv" "safe s t"
    "dgetrs ops N A ipiv B t = Inr (i, t')"
  shows "safe s t'"
proof -
  have "safe s (fold (apply_pivot ops ipiv B) [0..rows A - 1] t)"
    by (rule fold_invariant) (use assms in \<open>auto intro!: apply_pivot_safe\<close>)
  then show ?thesis
    using assms unfolding dgetrs_N
    by (auto intro!: back_subst_safe forward_subst_safe)
qed

subsection \<open>The public utilities\<close>

lemma createFloat64Matrix_eq:
  "createFloat64Matrix ops r c options s =
     (let lay = (case opt_layout options of None \<Rightarrow> ColumnMajor | Some l \<Rightarrow> l);
          iv = (case initialValue options of None \<Rightarrow> fzero ops | Some v \<Rightarrow> v)
      in if r * c < 0 then Inl RangeError
         else Inr (\<lparr>data = length (bufs s), rows = r, cols = c, layout = lay,
                    leadingDimension = (if lay = ColumnMajor then r else c)\<rparr>,
                   s\<lparr>bufs := bufs s @ [replicate (nat (r * c))
                                          (if feq0 ops iv then fzero ops else iv)]\<rparr>))"
  by (simp add: createFloat64Matrix_def new_Float64Array_def createMatrix_def ta_fill_def Let_def)

lemma validateIndices_ok:
  "0 \<le> i \<Longrightarrow> i < rows m \<Longrightarrow> 0 \<le> j \<Longrightarrow> j < cols m \<Longrightarrow> validateIndices m i j = Inr ()"
  by (simp add: validateIndices_def)

lemma copy_cell_ok:
  assumes "rows src = rows tgt" "cols src = cols tgt" "0 \<le> i" "i < rows src" "0 \<le> j" "j < cols src"
  shows "\<exists>u. copy_cell ops src tgt i j t = Inr u \<and> only_at (data tgt) t u \<and> faulted u = faulted t"
  using assms
  by (simp add: copy_cell_def getElement_def setElement_def validateIndices_ok only_at_ta_set)

lemma copied_step:
  assumes "copied a s r" "\<And>t. \<exists>u. f t = Inr u \<and> only_at a t u \<and> faulted u = faulted t"
  shows "copied a s (case r of Inl e \<Rightarrow> Inl e | Inr t \<Rightarrow> f t)"
proof -
  obtain t where t: "r = Inr t" "only_at a s t" "faulted t = faulted s"
    using assms(1) by (auto simp: copied_def)
  obtain u where u: "f t = Inr u" "only_at a t u" "faulted u = faulted t"
    using assms(2) by blast
  show ?thesis
    using t u only_at_trans[OF t(2) u(2)] by (simp add: copied_def)
qed

lemma ta_set_all_ok:
  assumes "length xs \<le> length (bufs s ! a)"
  shows "\<exists>t. ta_set_all s a xs = Inr t \<and> only_at a s t \<and> faulted t = faulted s"
proof -
  have "map length ((bufs s)[a := xs @ drop (length xs) (bufs s ! a)]) = map length (bufs s)"
  proof (cases "a < length (bufs s)")
    case True
    then show ?thesis using assms by (simp add: map_update list_update_same_conv)
  next
    case False
    then have "(bufs s)[a := xs @ drop (length xs) (bufs s ! a)] = bufs s"
      by (intro list_update_beyond) simp
    then show ?thesis by simp
  qed
  then show ?thesis
    using assms by (simp add: ta_set_all_def only_at_def same_shape_def)
qed

lemma length_ta_subarray0: "0 \<le> e \<Longrightarrow> int (length (ta_subarray0 xs e)) \<le> e"
  by (simp add: ta_subarray0_def Let_def)

lemma copyMatrix_ok:
  assumes "rows src = rows tgt" "cols src = cols tgt" "0 \<le> rows src * cols src"
    "rows tgt * cols tgt \<le> int (length (bufs s ! data tgt))"
  shows "copied (data tgt) s (copyMatrix ops src tgt s)"
proof (cases "layout src = layout tgt \<and> leadingDimension src = leadingDimension tgt
               \<and> leadingDimension src = rows src")
  case True
  have "length (ta_subarray0 (bufs s ! data src) (rows src * cols src))
          \<le> length (bufs s ! data tgt)"
    using length_ta_subarray0[OF assms(3), of "bufs s ! data src"] assms by simp
  from ta_set_all_ok[OF this] show ?thesis
    using True assms by (simp add: copyMatrix_def copied_def)
next
  case False
  have "copied (data tgt) s
          (fold (\<lambda>i r. fold (\<lambda>j r. case r of Inl e \<Rightarrow> Inl e
                                        | Inr t \<Rightarrow> copy_cell ops src tgt i j t)
                               [0..cols src - 1] r)
                [0..rows src - 1] (Inr s))"
  proof (rule fold_invariant, goal_cases)
    case 1
    show ?case by (simp add: copied_def)
  next
    case (2 i r)
    show ?case
    proof (rule fold_invariant, goal_cases)
      case 1
      show ?case by (rule 2)
    next
      case (2 j r')
      show ?case
        by (rule copied_step[OF 2(2)], rule copy_cell_ok)
           (use assms \<open>i \<in> set [0..rows src - 1]\<close> 2(1) in auto)
    qed
  qed
  then show ?thesis
    using False assms by (auto simp: copyMatrix_def)
qed

subsection \<open>The stages of DGESV\<close>

lemma validateParameters_dgesv:
  "validateParameters (Some n) (Some nrhs) (Some lda) (Some ldb) (Some ''DGESV'') =
     (if n < 0 then Inl (LapackError (- 1) ''DGESV'')
      else if nrhs < 0 then Inl (LapackError (- 2) ''DGESV'')
      else if lda < max 1 n then Inl (LapackError (- 4) ''DGESV'')
      else if ldb < max 1 n then Inl (LapackError (- 7) ''DGESV'')
      else Inr ())"
  by (simp add: validateParameters_def)

lemma working_copies_overwrite: "working_copies ops True A B s = Inr (A, B, s)"
  by (simp add: working_copies_def work_copy_def)

lemma working_copies_fresh:
  assumes sq: "rows A = cols A" and rb: "rows A = rows B" and n0: "0 \<le> rows A" and r0: "0 \<le> cols B"
  shows "\<exists>t. working_copies ops False A B s = Inr (fresh_A A s, fresh_B A B s, t)
             \<and> length (bufs t) = length (bufs s) + 2
             \<and> (\<forall>b < length (bufs s). bufs t ! b = bufs s ! b)
             \<and> faulted t = faulted s
             \<and> dense (fresh_A A s) t \<and> dense (fresh_B A B s) t"
proof -
  let ?n = "rows A" and ?r = "cols B" and ?l = "length (bufs s)"
  define s1 where "s1 = s\<lparr>bufs := bufs s @ [replicate (nat (?n * ?n)) (fzero ops)]\<rparr>"
  define s2 where "s2 = s1\<lparr>bufs := bufs s1 @ [replicate (nat (?n * ?r)) (fzero ops)]\<rparr>"
  have nn: "0 \<le> ?n * ?n" and nr: "0 \<le> ?n * ?r" using n0 r0 by simp_all
  have w1: "work_copy ops False A ?n ?n s = Inr (fresh_A A s, s1)"
    using nn by (simp add: work_copy_def createFloat64Matrix_eq fresh_A_def s1_def Let_def)
  have w2: "work_copy ops False B ?n ?r s1 = Inr (fresh_B A B s, s2)"
    using nr by (simp add: work_copy_def createFloat64Matrix_eq fresh_B_def s1_def s2_def Let_def)
  have b2: "bufs s2 = bufs s @ [replicate (nat (?n * ?n)) (fzero ops),
                                 replicate (nat (?n * ?r)) (fzero ops)]"
    by (simp add: s1_def s2_def)
  have "copied (data (fresh_A A s)) s2 (copyMatrix ops A (fresh_A A s) s2)"
    using sq nn by (intro copyMatrix_ok) (simp_all add: fresh_A_def b2 nth_append)
  then obtain s3 where s3: "copyMatrix ops A (fresh_A A s) s2 = Inr s3"
      "only_at ?l s2 s3" "faulted s3 = faulted s2"
    by (auto simp: copied_def fresh_A_def)
  have sh3: "same_shape s2 s3" using s3(2) by (rule only_at_shape)
  have len3: "length (bufs s3 ! Suc ?l) = nat (?n * ?r)"
    using same_shape_nth[OF sh3, of "Suc ?l"] by (simp add: b2 nth_append)
  have "copied (data (fresh_B A B s)) s3 (copyMatrix ops B (fresh_B A B s) s3)"
    using rb nr len3 by (intro copyMatrix_ok) (simp_all add: fresh_B_def)
  then obtain s4 where s4: "copyMatrix ops B (fresh_B A B s) s3 = Inr s4"
      "only_at (Suc ?l) s3 s4" "faulted s4 = faulted s3"
    by (auto simp: copied_def fresh_B_def)
  have sh4: "same_shape s2 s4"
    using sh3 only_at_shape[OF s4(2)] by (rule same_shape_trans)
  have run: "working_copies ops False A B s = Inr (fresh_A A s, fresh_B A B s, s4)"
    by (simp add: working_copies_def w1 w2 s3 s4)
  have len: "length (bufs s4) = ?l + 2"
    using same_shape_length[OF sh4] by (simp add: b2)
  have frame: "bufs s4 ! b = bufs s ! b" if "b < ?l" for b
  proof -
    have "bufs s4 ! b = bufs s3 ! b" using s4(2) that by (simp add: only_at_def)
    also have "\<dots> = bufs s2 ! b" using s3(2) that by (simp add: only_at_def)
    also have "\<dots> = bufs s ! b" using that by (simp add: b2 nth_append)
    finally show ?thesis .
  qed
  have dA: "dense (fresh_A A s) s4"
    using same_shape_nth[OF sh4, of ?l] n0 len
    by (simp add: dense_def fresh_A_def b2 nth_append)
  have dB: "dense (fresh_B A B s) s4"
    using same_shape_nth[OF sh4, of "Suc ?l"] n0 r0 len
    by (simp add: dense_def fresh_B_def b2 nth_append)
  show ?thesis
    using run len frame dA dB s3(3) s4(3) by (auto simp: s1_def s2_def)
qed

lemma dgesv_valid:
  assumes "valid_input inp"
  shows "dgesv ops inp s =
           (case working_copies ops (overwrite_of inp) (input_A inp) (input_B inp) s of
              Inl e \<Rightarrow> Inl e
            | Inr (workA, workB, s1) \<Rightarrow>
                factor_and_solve ops (rows (input_A inp)) workA workB s1)"
  using assms
  by (auto simp: dgesv_def valid_input_def overwrite_of_def validateParameters_dgesv Let_def)

lemma dgesv_invalid:
  assumes "\<not> valid_input inp"
  shows "dgesv ops inp s =
     (let A = input_A inp; B = input_B inp in
      Inr (failed (if rows A \<noteq> cols A \<or> rows A \<noteq> rows B \<or> rows A < 0 then - 1
                   else if cols B < 0 then - 2
                   else if leadingDimension A < max 1 (rows A) then - 4
                   else - 7), s))"
  using assms
  by (auto simp: dgesv_def valid_input_def validateParameters_dgesv Let_def)

lemma factor_and_solve_cases:
  assumes "0 \<le> n"
  obtains (singular) i ipiv t1 where
      "dgetrf ops workA (replicate (nat n) 0) t = (i, ipiv, t1)" "i \<noteq> 0"
      "factor_and_solve ops n workA workB t = Inr (failed i, t1)"
  | (solved) ipiv t1 t2 where
      "dgetrf ops workA (replicate (nat n) 0) t = (0, ipiv, t1)"
      "dgetrs ops N workA ipiv workB t1 = Inr (0, t2)"
      "factor_and_solve ops n workA workB t =
         Inr (\<lparr>info = 0, result = Some \<lparr>solution = workB, LU = workA, pivots = ipiv\<rparr>\<rparr>, t2)"
proof -
  obtain i ipiv t1 where lu: "dgetrf ops workA (replicate (nat n) 0) t = (i, ipiv, t1)"
    by (cases "dgetrf ops workA (replicate (nat n) 0) t") auto
  show ?thesis
  proof (cases "i = 0")
    case False
    then show ?thesis
      using assms lu by (intro singular[of i ipiv t1]) (simp_all add: factor_and_solve_def new_Int32Array_def)
  next
    case True
    then show ?thesis
      using assms lu
      by (intro solved[of ipiv t1]) (simp_all add: factor_and_solve_def new_Int32Array_def dgetrs_N)
  qed
qed

lemma dgetrf_loop_info: "0 \<le> k \<Longrightarrow> 0 \<le> fst (dgetrf_loop ops A k ipiv t)"
proof (induction ops A k ipiv t rule: dgetrf_loop.induct)
  case (1 ops A k ipiv t)
  show ?case
  proof (cases "k < rows A")
    case False
    then show ?thesis by (simp add: dgetrf_loop_stop)
  next
    case True
    obtain maxVal maxRow t1 where ps: "pivot_scan ops A k t = (maxVal, maxRow, t1)"
      by (cases "pivot_scan ops A k t") auto
    show ?thesis
    proof (cases "feq0 ops maxVal")
      case True
      then show ?thesis using \<open>k < rows A\<close> ps "1.prems" by (simp add: dgetrf_loop_singular)
    next
      case False
      show ?thesis
        using "1.IH"[OF True ps[symmetric] refl refl False refl refl] "1.prems"
        by (simp add: dgetrf_loop_step[OF True ps False])
    qed
  qed
qed

lemma factor_and_solve_total:
  assumes "0 \<le> n"
  shows "\<exists>r t'. factor_and_solve ops n workA workB t = Inr (r, t') \<and> 0 \<le> info r"
proof (rule factor_and_solve_cases[OF assms, of ops workA t workB], goal_cases)
  case singular: (1 i ipiv t1)
  then show ?thesis
    using dgetrf_loop_info[of 0 ops workA "replicate (nat n) 0" t]
    by (simp add: dgetrf_def failed_def)
next
  case solved: (2 ipiv t1 t2)
  then show ?thesis by simp
qed


lemma factor_and_solve_safe:
  assumes "0 \<le> n" "n < 2 ^ 31" "dense workA t" "dense workB t"
    "rows workA = n" "cols workA = n" "rows workB = n"
    "factor_and_solve ops n workA workB t = Inr (r, t')"
  shows "faulted t' = faulted t"
proof (rule factor_and_solve_cases[OF assms(1), of ops workA t workB], goal_cases)
  case singular: (1 i ipiv t1)
  have "pivots_upto (rows workA) 0 (replicate (nat n) 0)"
    using assms by (simp add: pivots_upto_def)
  then have "safe t t1"
    using dgetrf_loop_safe[of workA t 0 t "replicate (nat n) 0" ops i ipiv t1] assms singular(1)
    by (simp add: dgetrf_def)
  then show ?thesis using singular assms by (simp add: safe_def)
next
  case solved: (2 ipiv t1 t2)
  have "pivots_upto (rows workA) 0 (replicate (nat n) 0)"
    using assms by (simp add: pivots_upto_def)
  then have lu: "safe t t1 \<and> pivots_upto (rows workA) (rows workA) ipiv"
    using dgetrf_loop_safe[of workA t 0 t "replicate (nat n) 0" ops 0 ipiv t1] assms solved(1)
    by (simp add: dgetrf_def)
  have "safe t t2"
    using dgetrs_safe[of workA t workB ipiv t1 ops 0 t2] lu assms solved(2) by simp
  then show ?thesis using solved assms by (simp add: safe_def)
qed

lemma overwrite_of_iff: "overwrite_of inp \<longleftrightarrow> overwriteInput inp = Some True"
  by (cases "overwriteInput inp") (simp_all add: overwrite_of_def)

lemma dense_iff: "dense m s \<longleftrightarrow> well_formed m s \<and> 0 \<le> rows m \<and> 0 \<le> cols m"
  by (auto simp: dense_def well_formed_def)

lemma bufs_pivot_scan: "bufs (snd (snd (pivot_scan ops A k t))) = bufs t"
  unfolding pivot_scan_def
  by (rule fold_invariant[where P = "\<lambda>r. bufs (snd (snd r)) = bufs t"])
     (auto simp: case_prod_beta Let_def)

lemma zero_pivot_stops:
  "(k < rows A \<and> pivot_scan ops A k t = (maxVal, maxRow, t1) \<and> feq0 ops maxVal \<longrightarrow>
      dgetrf_loop ops A k ipiv t = (k + 1, i32_set ipiv k (maxRow + 1), t1) \<and> bufs t1 = bufs t)
   \<and> (valid_input inp
        \<and> working_copies ops (overwriteInput inp = Some True) (input_A inp) (input_B inp) s
            = Inr (workA, workB, u)
        \<and> dgetrf ops workA (replicate (nat (rows (input_A inp))) 0) u = (i, ipiv', u1) \<and> i \<noteq> 0 \<longrightarrow>
      dgesv ops inp s = Inr (\<lparr>info = i, result = None\<rparr>, u1))"
proof (intro conjI impI)
  assume h: "k < rows A \<and> pivot_scan ops A k t = (maxVal, maxRow, t1) \<and> feq0 ops maxVal"
  then show "dgetrf_loop ops A k ipiv t = (k + 1, i32_set ipiv k (maxRow + 1), t1)"
    by (simp add: dgetrf_loop_singular)
  show "bufs t1 = bufs t"
    using bufs_pivot_scan[of ops A k t] h by simp
next
  assume h: "valid_input inp
        \<and> working_copies ops (overwriteInput inp = Some True) (input_A inp) (input_B inp) s
            = Inr (workA, workB, u)
        \<and> dgetrf ops workA (replicate (nat (rows (input_A inp))) 0) u = (i, ipiv', u1) \<and> i \<noteq> 0"
  then have "0 \<le> rows (input_A inp)" by (simp add: valid_input_def)
  then show "dgesv ops inp s = Inr (\<lparr>info = i, result = None\<rparr>, u1)"
    using h
    by (simp add: dgesv_valid overwrite_of_iff factor_and_solve_def new_Int32Array_def failed_def)
qed

subsection \<open>Running the code on the concrete inputs\<close>

text \<open>
  Each run is evaluated stage by stage: the simplifier computes one loop at a time on
  closed terms, and the rounded results of the arithmetic are computed separately.
\<close>

lemma fold_weak_cong: "xs = ys \<Longrightarrow> s = t \<Longrightarrow> fold f xs s = fold f ys t"
  by simp

lemma mat_sel [simp]:
  "data (mat d r c lay) = d" "rows (mat d r c lay) = r" "cols (mat d r c lay) = c"
  "layout (mat d r c lay) = lay"
  "leadingDimension (mat d r c lay) = (if lay = ColumnMajor then r else c)"
  by (simp_all add: mat_def)

lemmas run_defs =
  dgesv_def failed_def validateParameters_def working_copies_def work_copy_def
  factor_and_solve_def createFloat64Matrix_def createMatrix_def
  new_Float64Array_def ta_fill_def copyMatrix_def copy_cell_def getElement_def setElement_def
  validateIndices_def ta_subarray0_def ta_set_all_def new_Int32Array_def
  dgetrf_def pivot_scan_def swap_cell_def eliminate_def
  eliminate_row_def i32_set_def i32_get_def wrap32_def
  dgetrs_def apply_pivot_def forward_subst_def
  back_subst_def back_step_def axpy_row_def getElementU_def setElementU_def
  ta_get_def ta_set_def touch_def in_bounds_def offset_def to_number_def binary64_def
  d_sub_def signed_def mat_def store_of_def dbl_def
  Let_def upto_rec1 nth_Cons' list_update_code nth_append

lemmas solve_defs = solve_s0_def solve_A_def solve_B_def solve_s1_def solve_s2_def solve_s3_def

lemma solve_vals:
  "round64 False (1 / 2) = Finite False (1 / 2)"
  "round64 False (1) = Finite False (1)"
  "round64 False (2) = Finite False (2)"
  "round64 False (3 / 2) = Finite False (3 / 2)"
  "round64 False (5 / 2) = Finite False (5 / 2)"
  by code_simp+

lemma solve_copies:
  "working_copies binary64 False (mat 0 2 2 ColumnMajor) (mat 1 2 1 ColumnMajor) solve_s0
     = Inr (solve_A, solve_B, solve_s1)"
  by (simp add: solve_defs run_defs solve_vals cong: fold_weak_cong let_weak_cong prod.case_cong_weak)

lemma solve_scan0: "pivot_scan binary64 solve_A 0 solve_s1 = (dbl (2), 0, solve_s1)"
  by (simp add: solve_defs run_defs solve_vals cong: fold_weak_cong let_weak_cong prod.case_cong_weak)

lemma solve_elim0: "eliminate binary64 solve_A 0 solve_s1 = solve_s2"
  by (simp add: solve_defs run_defs solve_vals cong: fold_weak_cong let_weak_cong prod.case_cong_weak)

lemma solve_scan1: "pivot_scan binary64 solve_A 1 solve_s2 = (dbl (5 / 2), 1, solve_s2)"
  by (simp add: solve_defs run_defs solve_vals cong: fold_weak_cong let_weak_cong prod.case_cong_weak)

lemma solve_elim1: "eliminate binary64 solve_A 1 solve_s2 = solve_s2"
  by (simp add: solve_defs run_defs solve_vals cong: fold_weak_cong let_weak_cong prod.case_cong_weak)

lemma solve_dgetrf: "dgetrf binary64 solve_A [0, 0] solve_s1 = (0, [1, 2], solve_s2)"
proof -
  have r: "rows solve_A = 2" by (simp add: solve_A_def)
  have l2: "dgetrf_loop binary64 solve_A 2 [1, 2] solve_s2 = (0, [1, 2], solve_s2)"
    by (simp add: dgetrf_loop_stop r)
  have z1: "\<not> feq0 binary64 (dbl (5 / 2))" by (simp add: binary64_def dbl_def)
  have l1: "dgetrf_loop binary64 solve_A 1 [1, 0] solve_s2 = (0, [1, 2], solve_s2)"
    using dgetrf_loop_step[OF _ solve_scan1 z1, of "[1, 0]"] l2
    by (simp add: r solve_elim1 i32_set_def wrap32_def)
  have z0: "\<not> feq0 binary64 (dbl (2))" by (simp add: binary64_def dbl_def)
  have l0: "dgetrf_loop binary64 solve_A 0 [0, 0] solve_s1 = (0, [1, 2], solve_s2)"
    using dgetrf_loop_step[OF _ solve_scan0 z0, of "[0, 0]"] l1
    by (simp add: r solve_elim0 i32_set_def wrap32_def)
  show ?thesis using l0 by (simp add: dgetrf_def)
qed

lemma solve_dgetrs: "dgetrs binary64 N solve_A [1, 2] solve_B solve_s2 = Inr (0, solve_s3)"
  by (simp add: solve_defs run_defs solve_vals cong: fold_weak_cong let_weak_cong prod.case_cong_weak)

lemma solve_run:
  "dgesv binary64 \<lparr>input_A = mat 0 2 2 ColumnMajor, input_B = mat 1 2 1 ColumnMajor,
                    overwriteInput = None\<rparr> solve_s0
   = Inr (\<lparr>info = 0, result = Some \<lparr>solution = solve_B, LU = solve_A, pivots = [1, 2]\<rparr>\<rparr>, solve_s3)"
proof -
  have "valid_input \<lparr>input_A = mat 0 2 2 ColumnMajor, input_B = mat 1 2 1 ColumnMajor,
                      overwriteInput = None\<rparr>"
    by (simp add: valid_input_def)
  moreover have "replicate 2 (0::int) = [0, 0]"
    by (simp add: numeral_2_eq_2)
  ultimately show ?thesis
    using solve_copies solve_dgetrf solve_dgetrs
    by (simp add: dgesv_valid overwrite_of_def factor_and_solve_def new_Int32Array_def failed_def)
qed

lemmas inplace_defs = inplace_s0_def inplace_A_def inplace_B_def inplace_s1_def inplace_s2_def

lemma inplace_vals:
  "round64 False (1 / 2) = Finite False (1 / 2)"
  "round64 False (1) = Finite False (1)"
  "round64 False (2) = Finite False (2)"
  "round64 False (3 / 2) = Finite False (3 / 2)"
  "round64 False (5 / 2) = Finite False (5 / 2)"
  by code_simp+

lemma inplace_scan0: "pivot_scan binary64 inplace_A 0 inplace_s0 = (dbl (2), 0, inplace_s0)"
  by (simp add: inplace_defs run_defs inplace_vals cong: fold_weak_cong let_weak_cong prod.case_cong_weak)

lemma inplace_elim0: "eliminate binary64 inplace_A 0 inplace_s0 = inplace_s1"
  by (simp add: inplace_defs run_defs inplace_vals cong: fold_weak_cong let_weak_cong prod.case_cong_weak)

lemma inplace_scan1: "pivot_scan binary64 inplace_A 1 inplace_s1 = (dbl (5 / 2), 1, inplace_s1)"
  by (simp add: inplace_defs run_defs inplace_vals cong: fold_weak_cong let_weak_cong prod.case_cong_weak)

lemma inplace_elim1: "eliminate binary64 inplace_A 1 inplace_s1 = inplace_s1"
  by (simp add: inplace_defs run_defs inplace_vals cong: fold_weak_cong let_weak_cong prod.case_cong_weak)

lemma inplace_dgetrf: "dgetrf binary64 inplace_A [0, 0] inplace_s0 = (0, [1, 2], inplace_s1)"
proof -
  have r: "rows inplace_A = 2" by (simp add: inplace_A_def)
  have l2: "dgetrf_loop binary64 inplace_A 2 [1, 2] inplace_s1 = (0, [1, 2], inplace_s1)"
    by (simp add: dgetrf_loop_stop r)
  have z1: "\<not> feq0 binary64 (dbl (5 / 2))" by (simp add: binary64_def dbl_def)
  have l1: "dgetrf_loop binary64 inplace_A 1 [1, 0] inplace_s1 = (0, [1, 2], inplace_s1)"
    using dgetrf_loop_step[OF _ inplace_scan1 z1, of "[1, 0]"] l2
    by (simp add: r inplace_elim1 i32_set_def wrap32_def)
  have z0: "\<not> feq0 binary64 (dbl (2))" by (simp add: binary64_def dbl_def)
  have l0: "dgetrf_loop binary64 inplace_A 0 [0, 0] inplace_s0 = (0, [1, 2], inplace_s1)"
    using dgetrf_loop_step[OF _ inplace_scan0 z0, of "[0, 0]"] l1
    by (simp add: r inplace_elim0 i32_set_def wrap32_def)
  show ?thesis using l0 by (simp add: dgetrf_def)
qed

lemma inplace_dgetrs: "dgetrs binary64 N inplace_A [1, 2] inplace_B inplace_s1 = Inr (0, inplace_s2)"
  by (simp add: inplace_defs run_defs inplace_vals cong: fold_weak_cong let_weak_cong prod.case_cong_weak)

lemma inplace_run:
  "dgesv binary64 \<lparr>input_A = inplace_A, input_B = inplace_B, overwriteInput = Some True\<rparr> inplace_s0
   = Inr (\<lparr>info = 0, result = Some \<lparr>solution = inplace_B, LU = inplace_A, pivots = [1, 2]\<rparr>\<rparr>, inplace_s2)"
proof -
  have "valid_input \<lparr>input_A = inplace_A, input_B = inplace_B, overwriteInput = Some True\<rparr>"
    by (simp add: valid_input_def inplace_A_def inplace_B_def)
  moreover have "replicate 2 (0::int) = [0, 0]"
    by (simp add: numeral_2_eq_2)
  moreover have "rows inplace_A = 2"
    by (simp add: inplace_A_def)
  ultimately show ?thesis
    using inplace_dgetrf inplace_dgetrs
    by (simp add: dgesv_valid overwrite_of_def working_copies_overwrite factor_and_solve_def
          new_Int32Array_def failed_def)
qed

lemmas singular_defs = singular_s0_def singular_A_def singular_B_def singular_s1_def singular_s2_def singular_s3_def singular_s4_def

lemma singular_vals:
  "round64 False (1 / 2) = Finite False (1 / 2)"
  "round64 False (2) = Finite False (2)"
  by code_simp+

lemma singular_copies:
  "working_copies binary64 False (mat 0 2 2 ColumnMajor) (mat 1 2 1 ColumnMajor) singular_s0
     = Inr (singular_A, singular_B, singular_s1)"
  by (simp add: singular_defs run_defs singular_vals cong: fold_weak_cong let_weak_cong prod.case_cong_weak)

lemma singular_scan0: "pivot_scan binary64 singular_A 0 singular_s1 = (dbl (2), 1, singular_s1)"
  by (simp add: singular_defs run_defs singular_vals cong: fold_weak_cong let_weak_cong prod.case_cong_weak)

lemma singular_swap0_0: "swap_cell binary64 singular_A 0 1 0 singular_s1 = singular_s2"
  by (simp add: singular_defs run_defs singular_vals cong: fold_weak_cong let_weak_cong prod.case_cong_weak)

lemma singular_swap0_1: "swap_cell binary64 singular_A 0 1 1 singular_s2 = singular_s3"
  by (simp add: singular_defs run_defs singular_vals cong: fold_weak_cong let_weak_cong prod.case_cong_weak)

lemma singular_swap0: "swap_rows binary64 singular_A 0 1 2 singular_s1 = singular_s3"
  by (simp add: swap_rows_def upto_rec1 singular_swap0_0 singular_swap0_1)

lemma singular_elim0: "eliminate binary64 singular_A 0 singular_s3 = singular_s4"
  by (simp add: singular_defs run_defs singular_vals cong: fold_weak_cong let_weak_cong prod.case_cong_weak)

lemma singular_scan1: "pivot_scan binary64 singular_A 1 singular_s4 = (dbl (0), 1, singular_s4)"
  by (simp add: singular_defs run_defs singular_vals cong: fold_weak_cong let_weak_cong prod.case_cong_weak)

lemma singular_dgetrf: "dgetrf binary64 singular_A [0, 0] singular_s1 = (2, [2, 2], singular_s4)"
proof -
  have r: "rows singular_A = 2" by (simp add: singular_A_def)
  have z1: "feq0 binary64 (dbl (0))" by (simp add: binary64_def dbl_def)
  have l1: "dgetrf_loop binary64 singular_A 1 [2, 0] singular_s4 = (2, [2, 2], singular_s4)"
    using dgetrf_loop_singular[OF _ singular_scan1 z1, of "[2, 0]"]
    by (simp add: r i32_set_def wrap32_def)
  have z0: "\<not> feq0 binary64 (dbl (2))" by (simp add: binary64_def dbl_def)
  have l0: "dgetrf_loop binary64 singular_A 0 [0, 0] singular_s1 = (2, [2, 2], singular_s4)"
    using dgetrf_loop_step[OF _ singular_scan0 z0, of "[0, 0]"] l1
    by (simp add: r singular_swap0 singular_elim0 i32_set_def wrap32_def)
  show ?thesis using l0 by (simp add: dgetrf_def)
qed

lemma singular_run:
  "dgesv binary64 \<lparr>input_A = mat 0 2 2 ColumnMajor, input_B = mat 1 2 1 ColumnMajor,
                    overwriteInput = None\<rparr> singular_s0
   = Inr (\<lparr>info = 2, result = None\<rparr>, singular_s4)"
proof -
  have "valid_input \<lparr>input_A = mat 0 2 2 ColumnMajor, input_B = mat 1 2 1 ColumnMajor,
                      overwriteInput = None\<rparr>"
    by (simp add: valid_input_def)
  moreover have "replicate 2 (0::int) = [0, 0]"
    by (simp add: numeral_2_eq_2)
  ultimately show ?thesis
    using singular_copies singular_dgetrf
    by (simp add: dgesv_valid overwrite_of_def factor_and_solve_def new_Int32Array_def failed_def)
qed

lemmas dependent_defs = dependent_s0_def dependent_A_def dependent_B_def dependent_s1_def dependent_s2_def dependent_s3_def

lemma dependent_vals:
  "round64 False (1261007895663739 / 4503599627370496) = Finite False (1261007895663739 / 4503599627370496)"
  "round64 False (20266198323167232 / 25) = Finite False (3242591731706757 / 4)"
  "round64 False (20266198323167233) = Finite False (20266198323167232)"
  "round64 False (31525197391593475 / 4503599627370496) = Finite False (7881299347898369 / 1125899906842624)"
  "round64 False (3242591731706757 / 4503599627370496) = Finite False (3242591731706757 / 4503599627370496)"
  "round64 False (7 / 25) = Finite False (1261007895663739 / 4503599627370496)"
  "round64 True (1 / 1125899906842624) = Finite True (1 / 1125899906842624)"
  "round64 True (3242591731706757 / 4) = Finite True (3242591731706757 / 4)"
  "round64 True (81064793292668925 / 4) = Finite True (20266198323167232)"
  by code_simp+

lemma dependent_copies:
  "working_copies binary64 False (mat 0 2 2 ColumnMajor) (mat 1 2 1 ColumnMajor) dependent_s0
     = Inr (dependent_A, dependent_B, dependent_s1)"
  by (simp add: dependent_defs run_defs dependent_vals cong: fold_weak_cong let_weak_cong prod.case_cong_weak)

lemma dependent_scan0: "pivot_scan binary64 dependent_A 0 dependent_s1 = (dbl (25), 0, dependent_s1)"
  by (simp add: dependent_defs run_defs dependent_vals cong: fold_weak_cong let_weak_cong prod.case_cong_weak)

lemma dependent_elim0: "eliminate binary64 dependent_A 0 dependent_s1 = dependent_s2"
  by (simp add: dependent_defs run_defs dependent_vals cong: fold_weak_cong let_weak_cong prod.case_cong_weak)

lemma dependent_scan1: "pivot_scan binary64 dependent_A 1 dependent_s2 = (dbl (1 / 1125899906842624), 1, dependent_s2)"
  by (simp add: dependent_defs run_defs dependent_vals cong: fold_weak_cong let_weak_cong prod.case_cong_weak)

lemma dependent_elim1: "eliminate binary64 dependent_A 1 dependent_s2 = dependent_s2"
  by (simp add: dependent_defs run_defs dependent_vals cong: fold_weak_cong let_weak_cong prod.case_cong_weak)

lemma dependent_dgetrf: "dgetrf binary64 dependent_A [0, 0] dependent_s1 = (0, [1, 2], dependent_s2)"
proof -
  have r: "rows dependent_A = 2" by (simp add: dependent_A_def)
  have l2: "dgetrf_loop binary64 dependent_A 2 [1, 2] dependent_s2 = (0, [1, 2], dependent_s2)"
    by (simp add: dgetrf_loop_stop r)
  have z1: "\<not> feq0 binary64 (dbl (1 / 1125899906842624))" by (simp add: binary64_def dbl_def)
  have l1: "dgetrf_loop binary64 dependent_A 1 [1, 0] dependent_s2 = (0, [1, 2], dependent_s2)"
    using dgetrf_loop_step[OF _ dependent_scan1 z1, of "[1, 0]"] l2
    by (simp add: r dependent_elim1 i32_set_def wrap32_def)
  have z0: "\<not> feq0 binary64 (dbl (25))" by (simp add: binary64_def dbl_def)
  have l0: "dgetrf_loop binary64 dependent_A 0 [0, 0] dependent_s1 = (0, [1, 2], dependent_s2)"
    using dgetrf_loop_step[OF _ dependent_scan0 z0, of "[0, 0]"] l1
    by (simp add: r dependent_elim0 i32_set_def wrap32_def)
  show ?thesis using l0 by (simp add: dgetrf_def)
qed

lemma dependent_dgetrs: "dgetrs binary64 N dependent_A [1, 2] dependent_B dependent_s2 = Inr (0, dependent_s3)"
  by (simp add: dependent_defs run_defs dependent_vals cong: fold_weak_cong let_weak_cong prod.case_cong_weak)

lemma dependent_run:
  "dgesv binary64 \<lparr>input_A = mat 0 2 2 ColumnMajor, input_B = mat 1 2 1 ColumnMajor,
                    overwriteInput = None\<rparr> dependent_s0
   = Inr (\<lparr>info = 0, result = Some \<lparr>solution = dependent_B, LU = dependent_A, pivots = [1, 2]\<rparr>\<rparr>, dependent_s3)"
proof -
  have "valid_input \<lparr>input_A = mat 0 2 2 ColumnMajor, input_B = mat 1 2 1 ColumnMajor,
                      overwriteInput = None\<rparr>"
    by (simp add: valid_input_def)
  moreover have "replicate 2 (0::int) = [0, 0]"
    by (simp add: numeral_2_eq_2)
  ultimately show ?thesis
    using dependent_copies dependent_dgetrf dependent_dgetrs
    by (simp add: dgesv_valid overwrite_of_def factor_and_solve_def new_Int32Array_def failed_def)
qed

lemma createFloat64Matrix_mat:
  "0 \<le> r * c \<Longrightarrow>
   createFloat64Matrix ops r c \<lparr>opt_layout = Some lay, initialValue = None\<rparr> s =
     Inr (mat (length (bufs s)) r c lay,
          s\<lparr>bufs := bufs s @ [replicate (nat (r * c)) (fzero ops)]\<rparr>)"
  by (simp add: createFloat64Matrix_eq mat_def Let_def)

lemma row_major_run:
  "dgesv binary64 \<lparr>input_A = mat 0 2 2 RowMajor, input_B = mat 1 2 1 RowMajor,
                    overwriteInput = None\<rparr> solve_s0
     = Inr (\<lparr>info = - 7, result = None\<rparr>, solve_s0)"
proof -
  have "\<not> valid_input \<lparr>input_A = mat 0 2 2 RowMajor, input_B = mat 1 2 1 RowMajor,
                         overwriteInput = None\<rparr>"
    by (simp add: valid_input_def)
  from dgesv_invalid[OF this, of binary64 solve_s0] show ?thesis
    by (simp add: failed_def)
qed

section \<open>The claims\<close>

text \<open>
  Claim C1: for the input \<open>A = [[2,1],[1,3]]\<close>, \<open>B = [[3],[4]]\<close> (float64, any supported
  layout) \<^verbatim>\<open>dgesv\<close> returns status 0 and a solution equal to \<open>[[1],[1]]\<close> within
  \<open>1e-10\<close>.

  The code does not do this in the row-major layout. \<^verbatim>\<open>createFloat64Matrix\<close> gives a
  row-major \<open>2 \<times> 1\<close> right-hand side the leading dimension \<open>cols = 1\<close>, and
  \<^verbatim>\<open>validateParameters\<close> compares it with \<open>max(1, n) = 2\<close> whatever the layout, so
  \<^verbatim>\<open>dgesv\<close> returns \<open>- 7\<close> and no solution. The theorem runs the code on that input.
  For the column-major layout lemma \<open>solve_run\<close> shows status 0 and the solution
  \<open>[1, 1]\<close> exactly, in binary64 arithmetic.
\<close>

theorem dgesv_row_major_rhs_rejected:
  "createFloat64Matrix binary64 2 1 \<lparr>opt_layout = Some RowMajor, initialValue = None\<rparr>
       (store_of [[2, 1, 1, 3]])
     = Inr (mat 1 2 1 RowMajor, store_of [[2, 1, 1, 3], [0, 0]])
   \<and> leadingDimension (mat 1 2 1 RowMajor) = 1
   \<and> dgesv binary64 \<lparr>input_A = mat 0 2 2 RowMajor, input_B = mat 1 2 1 RowMajor,
                       overwriteInput = None\<rparr> (store_of [[2, 1, 1, 3], [3, 4]])
     = Inr (\<lparr>info = - 7, result = None\<rparr>, store_of [[2, 1, 1, 3], [3, 4]])"
proof -
  have "createFloat64Matrix binary64 2 1 \<lparr>opt_layout = Some RowMajor, initialValue = None\<rparr>
       (store_of [[2, 1, 1, 3]])
     = Inr (mat 1 2 1 RowMajor, store_of [[2, 1, 1, 3], [0, 0]])"
    by (simp add: createFloat64Matrix_mat store_of_def binary64_def dbl_def numeral_2_eq_2)
  then show ?thesis
    using row_major_run by (simp add: solve_s0_def)
qed

text \<open>
  Claim C2, amended: if the pivot scan of column \<open>k\<close> (rows \<open>k .. n - 1\<close>) finds the
  maximum magnitude exactly 0, the factorization stops at once with status \<open>k + 1\<close>,
  having written only \<open>ipiv[k]\<close> (no buffer changes, no later column is touched), and the
  top-level call returns that status with no result; in particular the matrix
  \<open>[[1,2],[2,4]]\<close> (row 2 = 2 \<times> row 1) yields status 2.

  The first conjunct is about the loop of DGETRF entered at column \<open>k\<close> in any store, the
  second about \<^verbatim>\<open>dgesv\<close> once its checks have passed, the third runs the test input.
  Linear dependence alone does not give a positive status: see the counterexample below.
\<close>

theorem zero_pivot_stops_factorization:
  "(k < rows A \<and> pivot_scan ops A k t = (maxVal, maxRow, t1) \<and> feq0 ops maxVal \<longrightarrow>
      dgetrf_loop ops A k ipiv t = (k + 1, i32_set ipiv k (maxRow + 1), t1) \<and> bufs t1 = bufs t)
   \<and> (valid_input inp
        \<and> working_copies ops (overwriteInput inp = Some True) (input_A inp) (input_B inp) s
            = Inr (workA, workB, u)
        \<and> dgetrf ops workA (replicate (nat (rows (input_A inp))) 0) u = (i, ipiv', u1) \<and> i \<noteq> 0 \<longrightarrow>
      dgesv ops inp s = Inr (\<lparr>info = i, result = None\<rparr>, u1))
   \<and> dgesv binary64 \<lparr>input_A = mat 0 2 2 ColumnMajor, input_B = mat 1 2 1 ColumnMajor,
                       overwriteInput = None\<rparr> (store_of [[1, 2, 2, 4], [1, 2]])
       = Inr (\<lparr>info = 2, result = None\<rparr>,
              store_of [[1, 2, 2, 4], [1, 2], [2, 1 / 2, 4, 0], [1, 2]])"
  using zero_pivot_stops[of k A ops t maxVal maxRow t1 ipiv inp s workA workB u i ipiv' u1]
    singular_run
  by (simp add: singular_s0_def singular_s4_def)

text \<open>
  The theorem at the singular input: column 1 of the working copy is scanned in the
  store reached after column 0, its maximum is 0, and \<^verbatim>\<open>dgesv\<close> returns 2.
\<close>

theorem zero_pivot_stops_factorization_witness:
  "1 < rows singular_A
   \<and> pivot_scan binary64 singular_A 1 singular_s4 = (dbl 0, 1, singular_s4)
   \<and> feq0 binary64 (dbl 0)
   \<and> dgetrf_loop binary64 singular_A 1 [2, 0] singular_s4 = (2, [2, 2], singular_s4)
   \<and> valid_input \<lparr>input_A = mat 0 2 2 ColumnMajor, input_B = mat 1 2 1 ColumnMajor,
                    overwriteInput = None\<rparr>
   \<and> working_copies binary64 False (mat 0 2 2 ColumnMajor) (mat 1 2 1 ColumnMajor) singular_s0
        = Inr (singular_A, singular_B, singular_s1)
   \<and> dgetrf binary64 singular_A [0, 0] singular_s1 = (2, [2, 2], singular_s4)
   \<and> dgesv binary64 \<lparr>input_A = mat 0 2 2 ColumnMajor, input_B = mat 1 2 1 ColumnMajor,
                       overwriteInput = None\<rparr> singular_s0
       = Inr (\<lparr>info = 2, result = None\<rparr>, singular_s4)"
proof -
  let ?inp = "\<lparr>input_A = mat 0 2 2 ColumnMajor, input_B = mat 1 2 1 ColumnMajor,
                overwriteInput = None\<rparr>"
  have r: "rows singular_A = 2" by (simp add: singular_A_def)
  have z: "feq0 binary64 (dbl 0)" by (simp add: binary64_def dbl_def)
  have v: "valid_input ?inp" by (simp add: valid_input_def)
  have rep: "replicate 2 (0::int) = [0, 0]" by (simp add: numeral_2_eq_2)
  note inst = zero_pivot_stops_factorization[of 1 singular_A binary64 singular_s4 "dbl 0" 1
      singular_s4 "[2, 0]" ?inp singular_s0 singular_A singular_B singular_s1 2 "[2, 2]" singular_s4]
  have a: "dgetrf_loop binary64 singular_A 1 [2, 0] singular_s4 = (2, [2, 2], singular_s4)"
    using inst r z singular_scan1 by (simp add: i32_set_def wrap32_def)
  have b: "dgesv binary64 ?inp singular_s0 = Inr (\<lparr>info = 2, result = None\<rparr>, singular_s4)"
    using inst v singular_copies singular_dgetrf rep by simp
  show ?thesis
    using a b r z v singular_scan1 singular_copies singular_dgetrf by simp
qed

text \<open>
  The rows of \<open>[[25,25],[7,7]]\<close> are proportional, yet in binary64 the elimination leaves
  \<open>7 - fl(fl(7/25) * 25) = - 2^-50\<close> on the diagonal, which is not 0: the status is 0 and
  a "solution" is returned.
\<close>

theorem dependent_rows_status_zero:
  "dgesv binary64 \<lparr>input_A = mat 0 2 2 ColumnMajor, input_B = mat 1 2 1 ColumnMajor,
                     overwriteInput = None\<rparr> (store_of [[25, 7, 25, 7], [1, 1]])
     = Inr (\<lparr>info = 0,
              result = Some \<lparr>solution = mat 3 2 1 ColumnMajor, LU = mat 2 2 2 ColumnMajor,
                              pivots = [1, 2]\<rparr>\<rparr>,
            store_of [[25, 7, 25, 7], [1, 1],
                      [25, 1261007895663739 / 4503599627370496, 25, - 1 / 1125899906842624],
                      [3242591731706757 / 4, - 3242591731706757 / 4]])"
  using dependent_run
  by (simp add: dependent_s0_def dependent_s3_def dependent_A_def dependent_B_def)



text \<open>
  Claim C4: \<^verbatim>\<open>dgesv\<close> returns status \<open>- 1\<close> and no result when \<open>A\<close> is not square, and
  likewise when \<open>A.rows \<noteq> B.rows\<close>. The store is left as it was.
\<close>

theorem dgesv_rejects_bad_shape:
  assumes "rows (input_A inp) \<noteq> cols (input_A inp) \<or> rows (input_A inp) \<noteq> rows (input_B inp)"
  shows "dgesv ops inp s = Inr (\<lparr>info = - 1, result = None\<rparr>, s)"
  using assms by (auto simp: dgesv_def failed_def Let_def)

text \<open>
  The theorem at a \<open>2 \<times> 3\<close> matrix \<open>A\<close>, and at a \<open>3 \<times> 3\<close> matrix \<open>A\<close> with a
  \<open>2 \<times> 1\<close> right-hand side.
\<close>

theorem dgesv_rejects_bad_shape_witness:
  "rows (mat 0 2 3 ColumnMajor) \<noteq> cols (mat 0 2 3 ColumnMajor)
   \<and> dgesv binary64 \<lparr>input_A = mat 0 2 3 ColumnMajor, input_B = mat 1 2 1 ColumnMajor,
                       overwriteInput = None\<rparr> (store_of [[0, 0, 0, 0, 0, 0], [0, 0]])
       = Inr (\<lparr>info = - 1, result = None\<rparr>, store_of [[0, 0, 0, 0, 0, 0], [0, 0]])
   \<and> rows (mat 0 3 3 ColumnMajor) \<noteq> rows (mat 1 2 1 ColumnMajor)
   \<and> dgesv binary64 \<lparr>input_A = mat 0 3 3 ColumnMajor, input_B = mat 1 2 1 ColumnMajor,
                       overwriteInput = None\<rparr> (store_of [[0, 0, 0, 0, 0, 0, 0, 0, 0], [0, 0]])
       = Inr (\<lparr>info = - 1, result = None\<rparr>, store_of [[0, 0, 0, 0, 0, 0, 0, 0, 0], [0, 0]])"
  using dgesv_rejects_bad_shape[of "\<lparr>input_A = mat 0 2 3 ColumnMajor,
          input_B = mat 1 2 1 ColumnMajor, overwriteInput = None\<rparr>" binary64
          "store_of [[0, 0, 0, 0, 0, 0], [0, 0]]"]
    dgesv_rejects_bad_shape[of "\<lparr>input_A = mat 0 3 3 ColumnMajor,
          input_B = mat 1 2 1 ColumnMajor, overwriteInput = None\<rparr>" binary64
          "store_of [[0, 0, 0, 0, 0, 0, 0, 0, 0], [0, 0]]"]
  by simp






text \<open>
  Claim C7: on a row-major and a column-major matrix with the same logical contents
  \<^verbatim>\<open>dgesv\<close> gives identical results.

  The code does not: for \<open>[[2,1],[1,3]] x = [3,4]\<close> the row-major matrices, as the
  constructor builds them, are rejected with \<open>- 7\<close> (the leading dimension of the
  \<open>2 \<times> 1\<close> right-hand side is \<open>cols = 1 < n\<close>), while the column-major ones are solved
  with status 0. Both buffers hold the same numbers in the two layouts, \<open>A\<close> being
  symmetric and \<open>B\<close> a single column. The theorem runs the code on both.
\<close>

theorem layout_changes_status:
  "dgesv binary64 \<lparr>input_A = mat 0 2 2 RowMajor, input_B = mat 1 2 1 RowMajor,
                     overwriteInput = None\<rparr> solve_s0
     = Inr (\<lparr>info = - 7, result = None\<rparr>, solve_s0)
   \<and> dgesv binary64 \<lparr>input_A = mat 0 2 2 ColumnMajor, input_B = mat 1 2 1 ColumnMajor,
                       overwriteInput = None\<rparr> solve_s0
     = Inr (\<lparr>info = 0, result = Some \<lparr>solution = solve_B, LU = solve_A, pivots = [1, 2]\<rparr>\<rparr>,
            solve_s3)"
  using row_major_run solve_run by simp




text \<open>
  Claim C9: for well-formed dense inputs (buffer length at least \<open>rows * cols\<close>, leading
  dimension \<open>rows\<close> for column-major and \<open>cols\<close> for row-major) every buffer access of the
  factorization and solve routines is within bounds, although the private accessors of
  the solver check nothing: \<^verbatim>\<open>dgesv\<close> returns and the ghost flag \<open>faulted\<close>, raised by
  any access outside a buffer, is as before the call.

  The order is below \<open>2^31\<close>, so that the pivots fit the \<^verbatim>\<open>Int32Array\<close>; a dense buffer
  of a larger order exceeds the length of any typed array.
\<close>

theorem dgesv_accesses_in_bounds:
  assumes "well_formed (input_A inp) s" "well_formed (input_B inp) s" "rows (input_A inp) < 2 ^ 31"
  shows "\<exists>r t. dgesv ops inp s = Inr (r, t) \<and> faulted t = faulted s"
proof (cases "valid_input inp")
  case False
  then show ?thesis
    using dgesv_invalid[OF False, of ops s] by (simp add: Let_def)
next
  case True
  let ?A = "input_A inp" and ?B = "input_B inp"
  have n0: "0 \<le> rows ?A" and sq: "cols ?A = rows ?A" and rb: "rows ?B = rows ?A"
    and r0: "0 \<le> cols ?B"
    using True by (simp_all add: valid_input_def)
  show ?thesis
  proof (cases "overwrite_of inp")
    case False
    obtain u where u: "working_copies ops False ?A ?B s = Inr (fresh_A ?A s, fresh_B ?A ?B s, u)"
        "faulted u = faulted s" "dense (fresh_A ?A s) u" "dense (fresh_B ?A ?B s) u"
      using working_copies_fresh[of ?A ?B ops s] True by (auto simp: valid_input_def)
    obtain r t where rt: "factor_and_solve ops (rows ?A) (fresh_A ?A s) (fresh_B ?A ?B s) u = Inr (r, t)"
      using factor_and_solve_total[OF n0] by blast
    have "faulted t = faulted u"
      using factor_and_solve_safe[OF n0 assms(3) u(3,4) _ _ _ rt]
      by (simp add: fresh_A_def fresh_B_def)
    then show ?thesis
      using False u(1,2) rt by (simp add: dgesv_valid[OF True])
  next
    case ow: True
    have d: "dgesv ops inp s = factor_and_solve ops (rows ?A) ?A ?B s"
      using ow by (simp add: dgesv_valid[OF True] working_copies_overwrite)
    obtain r t where rt: "factor_and_solve ops (rows ?A) ?A ?B s = Inr (r, t)"
      using factor_and_solve_total[OF n0] by blast
    have "dense ?A s" "dense ?B s"
      using assms n0 sq rb r0 by (simp_all add: dense_iff)
    then have "faulted t = faulted s"
      using factor_and_solve_safe[OF n0 assms(3) _ _ refl sq rb rt] by simp
    then show ?thesis using d rt by simp
  qed
qed

text \<open>
  The theorem at the system \<open>[[2,1],[1,3]] x = [3,4]\<close>, with and without
  \<^verbatim>\<open>overwriteInput\<close>.
\<close>

theorem dgesv_accesses_in_bounds_witness:
  "well_formed (mat 0 2 2 ColumnMajor) solve_s0 \<and> well_formed (mat 1 2 1 ColumnMajor) solve_s0
   \<and> rows (mat 0 2 2 ColumnMajor) < 2 ^ 31
   \<and> faulted solve_s3 = faulted solve_s0
   \<and> well_formed inplace_A inplace_s0 \<and> well_formed inplace_B inplace_s0
   \<and> rows inplace_A < 2 ^ 31
   \<and> faulted inplace_s2 = faulted inplace_s0"
proof -
  have wf: "well_formed (mat 0 2 2 ColumnMajor) solve_s0" "well_formed (mat 1 2 1 ColumnMajor) solve_s0"
    "well_formed inplace_A inplace_s0" "well_formed inplace_B inplace_s0"
    by (simp_all add: well_formed_def solve_s0_def inplace_s0_def inplace_A_def inplace_B_def
                      store_of_def)
  have a: "faulted solve_s3 = faulted solve_s0"
    using dgesv_accesses_in_bounds[of "\<lparr>input_A = mat 0 2 2 ColumnMajor,
        input_B = mat 1 2 1 ColumnMajor, overwriteInput = None\<rparr>" solve_s0 binary64]
      wf solve_run by simp
  have b: "faulted inplace_s2 = faulted inplace_s0"
    using dgesv_accesses_in_bounds[of "\<lparr>input_A = inplace_A, input_B = inplace_B,
        overwriteInput = Some True\<rparr>" inplace_s0 binary64]
      wf inplace_run by (simp add: inplace_A_def)
  show ?thesis using wf a b by (simp add: inplace_A_def)
qed

text \<open>
  Claim C10, amended: for \<open>A\<close> of size \<open>0 \<times> 0\<close> and \<open>B\<close> of size \<open>0 \<times> nrhs\<close>
  (\<open>nrhs \<ge> 0\<close>) whose leading dimensions are both at least 1, \<^verbatim>\<open>dgesv\<close> returns
  status 0 with a result, both loops being vacuous. When the leading dimension of \<open>A\<close> is
  below 1 the status is \<open>- 4\<close>, and \<open>- 7\<close> when only that of \<open>B\<close> is.
\<close>

theorem dgesv_order_zero:
  assumes "rows (input_A inp) = 0" "cols (input_A inp) = 0" "rows (input_B inp) = 0"
    "0 \<le> cols (input_B inp)"
  shows "(leadingDimension (input_A inp) < 1 \<longrightarrow>
            dgesv ops inp s = Inr (\<lparr>info = - 4, result = None\<rparr>, s))
       \<and> (1 \<le> leadingDimension (input_A inp) \<and> leadingDimension (input_B inp) < 1 \<longrightarrow>
            dgesv ops inp s = Inr (\<lparr>info = - 7, result = None\<rparr>, s))
       \<and> (1 \<le> leadingDimension (input_A inp) \<and> 1 \<le> leadingDimension (input_B inp) \<longrightarrow>
            (\<exists>r t. dgesv ops inp s = Inr (r, t) \<and> info r = 0 \<and> result r \<noteq> None))"
proof (cases "valid_input inp")
  case False
  then show ?thesis
    using dgesv_invalid[OF False, of ops s] assms
    by (auto simp: Let_def failed_def valid_input_def)
next
  case True
  let ?A = "input_A inp" and ?B = "input_B inp"
  have solve: "\<exists>r t. factor_and_solve ops 0 wA wB u = Inr (r, t) \<and> info r = 0 \<and> result r \<noteq> None"
    if "rows wA = 0" for wA wB u
  proof (rule factor_and_solve_cases[of 0 ops wA u wB], goal_cases)
    case 1
    show ?case by simp
  next
    case (2 i ipiv t1)
    then show ?case using that by (simp add: dgetrf_def dgetrf_loop_stop)
  next
    case (3 ipiv t1 t2)
    then show ?case by simp
  qed
  have "\<exists>r t. dgesv ops inp s = Inr (r, t) \<and> info r = 0 \<and> result r \<noteq> None"
  proof (cases "overwrite_of inp")
    case False
    obtain u where "working_copies ops False ?A ?B s = Inr (fresh_A ?A s, fresh_B ?A ?B s, u)"
      using working_copies_fresh[of ?A ?B ops s] True by (auto simp: valid_input_def)
    then show ?thesis
      using False assms solve[of "fresh_A ?A s" "fresh_B ?A ?B s" u]
      by (simp add: dgesv_valid[OF True] fresh_A_def)
  next
    case True
    then show ?thesis
      using assms solve[of ?A ?B s] \<open>valid_input inp\<close>
      by (simp add: dgesv_valid working_copies_overwrite)
  qed
  then show ?thesis using True assms by (auto simp: valid_input_def)
qed

text \<open>
  The theorem at a \<open>0 \<times> 0\<close> view with leading dimension 1 and a row-major \<open>0 \<times> 2\<close>
  right-hand side.
\<close>

theorem dgesv_order_zero_witness:
  "rows \<lparr>data = 0, rows = 0, cols = 0, layout = ColumnMajor, leadingDimension = 1\<rparr> = 0
   \<and> cols \<lparr>data = 0, rows = 0, cols = 0, layout = ColumnMajor, leadingDimension = 1\<rparr> = 0
   \<and> rows (mat 1 0 2 RowMajor) = 0 \<and> 0 \<le> cols (mat 1 0 2 RowMajor)
   \<and> 1 \<le> leadingDimension (mat 1 0 2 RowMajor)
   \<and> (\<exists>r t. dgesv binary64
                \<lparr>input_A = \<lparr>data = 0, rows = 0, cols = 0, layout = ColumnMajor,
                              leadingDimension = 1\<rparr>,
                   input_B = mat 1 0 2 RowMajor, overwriteInput = None\<rparr> (store_of [[], []])
              = Inr (r, t) \<and> info r = 0 \<and> result r \<noteq> None)"
  using dgesv_order_zero[of "\<lparr>input_A = \<lparr>data = 0, rows = 0, cols = 0, layout = ColumnMajor,
                              leadingDimension = 1\<rparr>,
                   input_B = mat 1 0 2 RowMajor, overwriteInput = None\<rparr>" binary64
                   "store_of [[], []]"]
  by simp

text \<open>
  The \<open>0 \<times> 0\<close> matrix the constructor builds has leading dimension 0, and
  \<^verbatim>\<open>dgesv\<close> rejects it with \<open>- 4\<close>.
\<close>

theorem constructed_empty_system_rejected:
  "createFloat64Matrix binary64 0 0 \<lparr>opt_layout = Some ColumnMajor, initialValue = None\<rparr>
       (store_of [])
     = Inr (mat 0 0 0 ColumnMajor, store_of [[]])
   \<and> createFloat64Matrix binary64 0 1 \<lparr>opt_layout = Some ColumnMajor, initialValue = None\<rparr>
       (store_of [[]])
     = Inr (mat 1 0 1 ColumnMajor, store_of [[], []])
   \<and> dgesv binary64 \<lparr>input_A = mat 0 0 0 ColumnMajor, input_B = mat 1 0 1 ColumnMajor,
                       overwriteInput = None\<rparr> (store_of [[], []])
       = Inr (\<lparr>info = - 4, result = None\<rparr>, store_of [[], []])"
proof -
  have "\<not> valid_input \<lparr>input_A = mat 0 0 0 ColumnMajor, input_B = mat 1 0 1 ColumnMajor,
                         overwriteInput = None\<rparr>"
    by (simp add: valid_input_def)
  from dgesv_invalid[OF this, of binary64 "store_of [[], []]"]
  have "dgesv binary64 \<lparr>input_A = mat 0 0 0 ColumnMajor, input_B = mat 1 0 1 ColumnMajor,
                       overwriteInput = None\<rparr> (store_of [[], []])
       = Inr (\<lparr>info = - 4, result = None\<rparr>, store_of [[], []])"
    by (simp add: failed_def)
  then show ?thesis
    by (simp add: createFloat64Matrix_mat store_of_def)
qed

end
